theory Spec2Isabelle
  imports Complex_Main
begin

section \<open>JavaScript values and the store\<close>

text \<open>
  The values that props, defaults and validator arguments range over. Arrays and plain
  objects are carried by value: no operation below looks at the identity of a nested
  array or object. A function value is represented by what it returns when it is called
  with no argument, which is all that a default factory is ever asked for.
\<close>

datatype jsval =
    JUndefined
  | JNull
  | JBool bool
  | JNum rat
  | JStr string
  | JArr "jsval list"
  | JObj "(string \<times> jsval) list"
  | JFun jsval
  | JSym nat

text \<open>
  Modelled from the spec: the predicate utilities of \<^verbatim>\<open>src/utils\<close> (spec 4.1), which is
  not among the sources: pure, total classifiers of a value's runtime shape.
\<close>

fun isString :: "jsval \<Rightarrow> bool" where
  "isString (JStr _) = True"
| "isString _ = False"

fun isNumber :: "jsval \<Rightarrow> bool" where
  "isNumber (JNum _) = True"
| "isNumber _ = False"

fun isBoolean :: "jsval \<Rightarrow> bool" where
  "isBoolean (JBool _) = True"
| "isBoolean _ = False"

fun isFunction :: "jsval \<Rightarrow> bool" where
  "isFunction (JFun _) = True"
| "isFunction _ = False"

fun isArray :: "jsval \<Rightarrow> bool" where
  "isArray (JArr _) = True"
| "isArray _ = False"

fun isPlainObject :: "jsval \<Rightarrow> bool" where
  "isPlainObject (JObj _) = True"
| "isPlainObject _ = False"

fun isSymbol :: "jsval \<Rightarrow> bool" where
  "isSymbol (JSym _) = True"
| "isSymbol _ = False"

fun isInteger :: "jsval \<Rightarrow> bool" where
  "isInteger (JNum q) = (of_int \<lfloor>q\<rfloor> = q)"
| "isInteger _ = False"

text \<open>The tags a \<^verbatim>\<open>type\<close> field can hold: native constructors, a list of them, or a
  reference to another object (an \<^verbatim>\<open>extend\<close> spec may name a descriptor there).\<close>

datatype ctor = CString | CNumber | CBoolean | CFunction | CArray | CObject | CSymbol

type_synonym addr = nat

datatype ptype = Native ctor | NativeList "ctor list" | DescRef addr

text \<open>A diagnostic names the prop (when known), what was expected and what was received;
  its rendering as text is not modelled. \<open>Message\<close> is a diagnostic with a text of its
  own, as a validator writes when it reports its failure itself (\<^verbatim>\<open>custom\<close> with an
  error message, spec 4.4).\<close>

datatype diag =
    TypeMismatch "string option" "string list" jsval
  | InvalidDefault "string option" jsval
  | Message string

text \<open>
  A validator is a JavaScript function called with an argument list; the model keeps the
  truthiness of what it returns and the diagnostics it hands to \<^verbatim>\<open>warn\<close> while it runs,
  in order. The object it is bound to (\<^verbatim>\<open>this\<close>) is not an input of the model, and a
  validator that throws is not modelled.
\<close>

type_synonym validator_fn = "jsval list \<Rightarrow> bool \<times> diag list"

text \<open>
  The object a descriptor is: the four fields of the host framework's prop options, each
  of them possibly absent, the name \<^verbatim>\<open>_vueTypes_name\<close> that marks a VueTypes descriptor
  (absent on a raw options object), and whether the \<^verbatim>\<open>validate\<close> method is attached.
\<close>

record vuetype =
  vt_name :: "string option"
  vt_type :: "ptype option"
  vt_required :: "bool option"
  vt_default :: "jsval option"
  vt_validator :: "validator_fn option"
  vt_validable :: bool

text \<open>
  The store holds every object that some closure or caller keeps a reference to:
  configuration objects (the caller's \<^verbatim>\<open>defs\<close>, a namespace's \<^verbatim>\<open>defaults\<close>) and
  descriptor or options objects. Objects are allocated at consecutive addresses. The
  logging sink is the list \<open>logs\<close>; \<open>silenced\<close> is the process-wide flag that disables
  it (spec 4.1).
\<close>

type_synonym config = "string \<rightharpoonup> jsval"

record store =
  objs :: "addr \<rightharpoonup> config"
  descs :: "addr \<rightharpoonup> vuetype"
  nxt :: addr
  logs :: "diag list"
  silenced :: bool

definition alloc_obj :: "config \<Rightarrow> store \<Rightarrow> addr \<times> store" where
  "alloc_obj c s = (nxt s, s\<lparr>objs := (objs s)(nxt s \<mapsto> c), nxt := Suc (nxt s)\<rparr>)"

definition alloc_desc :: "vuetype \<Rightarrow> store \<Rightarrow> addr \<times> store" where
  "alloc_desc d s = (nxt s, s\<lparr>descs := (descs s)(nxt s \<mapsto> d), nxt := Suc (nxt s)\<rparr>)"

text \<open>Reading a property of an object: an absent key reads as \<^verbatim>\<open>undefined\<close>.\<close>

definition get_prop :: "config \<Rightarrow> string \<Rightarrow> jsval" where
  "get_prop c k = (case c k of None \<Rightarrow> JUndefined | Some v \<Rightarrow> v)"

text \<open>In-place update of the descriptor at an address (no object there: nothing happens;
  a JavaScript reference always has its object).\<close>

definition update_desc :: "addr \<Rightarrow> (vuetype \<Rightarrow> vuetype) \<Rightarrow> store \<Rightarrow> store" where
  "update_desc a f s =
     (case descs s a of
        None \<Rightarrow> s
      | Some d \<Rightarrow> s\<lparr>descs := (descs s)(a \<mapsto> f d)\<rparr>)"


section \<open>The descriptor model (\<^verbatim>\<open>src/utils\<close>, not among the sources)\<close>

text \<open>
  Modelled from the spec: \<^verbatim>\<open>warn\<close> of \<^verbatim>\<open>src/utils\<close> (spec 4.1), which is not among
  the sources. It writes a diagnostic to the sink only when the flag is off.
\<close>

definition warn :: "diag \<Rightarrow> store \<Rightarrow> store" where
  "warn m s = (if silenced s then s else s\<lparr>logs := logs s @ [m]\<rparr>)"

text \<open>
  Modelled from the spec: \<^verbatim>\<open>validateType\<close> of \<^verbatim>\<open>src/utils\<close> (spec 4.5), which is not
  among the sources. Step 1 turns a native constructor into a descriptor. Steps 2 to 4
  are the probe: an absent optional value succeeds at once; the runtime type is checked
  against the \<^verbatim>\<open>type\<close> field; a validator, when there is one, is called and has the
  final word; calling it hands each of its diagnostics to \<^verbatim>\<open>warn\<close>
  (\<open>call_validator\<close>). The sink is disabled while the probe runs and the flag is then
  put back to what it was (the scoped suppression of 4.5), so that what the validator
  reports itself is not written. This is done in either mode: 4.5 words it for silent
  mode, and rules out for every mode that the diagnostics of one failed check fire
  twice, which the line of step 5 coming after the validator's own report would be.
  Step 5 reports: the message is returned in silent mode, and handed to \<^verbatim>\<open>warn\<close>
  otherwise.
\<close>

datatype vspec = SpecCtor ctor | SpecObj vuetype

datatype vresult = RTrue | RFalse | RMsg diag

definition normalize_spec :: "vspec \<Rightarrow> vuetype" where
  "normalize_spec sp =
     (case sp of
        SpecCtor c \<Rightarrow>
          \<lparr>vt_name = None, vt_type = Some (Native c), vt_required = None,
           vt_default = None, vt_validator = None, vt_validable = False\<rparr>
      | SpecObj d \<Rightarrow> d)"

fun ctor_accepts :: "ctor \<Rightarrow> jsval \<Rightarrow> bool" where
  "ctor_accepts CString v = isString v"
| "ctor_accepts CNumber v = isNumber v"
| "ctor_accepts CBoolean v = isBoolean v"
| "ctor_accepts CFunction v = isFunction v"
| "ctor_accepts CArray v = isArray v"
| "ctor_accepts CObject v = isPlainObject v"
| "ctor_accepts CSymbol v = isSymbol v"

fun type_accepts :: "ptype \<Rightarrow> jsval \<Rightarrow> bool" where
  "type_accepts (Native c) v = ctor_accepts c v"
| "type_accepts (NativeList cs) v = list_ex (\<lambda>c. ctor_accepts c v) cs"
| "type_accepts (DescRef _) v = False"

definition call_validator :: "validator_fn \<Rightarrow> jsval list \<Rightarrow> store \<Rightarrow> bool \<times> store" where
  "call_validator f args s = (case f args of (r, ms) \<Rightarrow> (r, fold warn ms s))"

definition probe :: "vuetype \<Rightarrow> jsval \<Rightarrow> store \<Rightarrow> bool \<times> store" where
  "probe d v s =
     (if vt_required d \<noteq> Some True \<and> v = JUndefined then (True, s)
      else (let typed = (case vt_type d of None \<Rightarrow> True | Some t \<Rightarrow> type_accepts t v)
            in (case vt_validator d of
                  Some f \<Rightarrow> call_validator f [v] s
                | None \<Rightarrow> (typed, s))))"

fun ctor_name :: "ctor \<Rightarrow> string" where
  "ctor_name CString = ''string''"
| "ctor_name CNumber = ''number''"
| "ctor_name CBoolean = ''boolean''"
| "ctor_name CFunction = ''function''"
| "ctor_name CArray = ''array''"
| "ctor_name CObject = ''object''"
| "ctor_name CSymbol = ''symbol''"

definition expected :: "vuetype \<Rightarrow> string list" where
  "expected d =
     (case vt_type d of
        Some (Native c) \<Rightarrow> [ctor_name c]
      | Some (NativeList cs) \<Rightarrow> map ctor_name cs
      | _ \<Rightarrow> [])"

definition validateType :: "vspec \<Rightarrow> jsval \<Rightarrow> bool \<Rightarrow> store \<Rightarrow> vresult \<times> store" where
  "validateType sp v silent s =
     (let d = normalize_spec sp;
          prior = silenced s;
          (valid, s1) = probe d v (s\<lparr>silenced := True\<rparr>);
          s2 = s1\<lparr>silenced := prior\<rparr>
      in if valid then (RTrue, s2)
         else (let msg = TypeMismatch (vt_name d) (expected d) v in
               if silent then (RMsg msg, s2) else (RFalse, warn msg s2)))"

text \<open>
  Modelled from the spec: the descriptor builder of \<^verbatim>\<open>src/utils\<close> (spec 4.2 and
  4.4), which is not among the sources. \<^verbatim>\<open>toType\<close> and \<^verbatim>\<open>toValidableType\<close> turn the
  options object they are given into a descriptor, in place; the second attaches the
  \<^verbatim>\<open>validate\<close> method as well.
\<close>

definition toType :: "string \<Rightarrow> addr \<Rightarrow> store \<Rightarrow> addr \<times> store" where
  "toType name a s =
     (a, update_desc a (\<lambda>d. d\<lparr>vt_name := Some name, vt_validable := False\<rparr>) s)"

definition toValidableType :: "string \<Rightarrow> addr \<Rightarrow> store \<Rightarrow> addr \<times> store" where
  "toValidableType name a s =
     (a, update_desc a (\<lambda>d. d\<lparr>vt_name := Some name, vt_validable := True\<rparr>) s)"

text \<open>Modelled from the spec: \<^verbatim>\<open>isRequired\<close> of the descriptor builder (spec 4.2), in
  \<^verbatim>\<open>src/utils\<close>, which is not among the sources. It sets \<^verbatim>\<open>required = true\<close> and returns
  the same descriptor.\<close>

definition isRequired :: "addr \<Rightarrow> store \<Rightarrow> addr \<times> store" where
  "isRequired a s = (a, update_desc a (\<lambda>d. d\<lparr>vt_required := Some True\<rparr>) s)"

text \<open>
  Modelled from the spec: \<^verbatim>\<open>def\<close> of the descriptor builder (spec 3 and 4.2), in
  \<^verbatim>\<open>src/utils\<close>, which is not among the sources. \<^verbatim>\<open>def(undefined)\<close> deletes the default
  without validating. Any other value is validated first, against the descriptor as
  \<^verbatim>\<open>validateType\<close> does in silent mode (for the array, object and shape kinds, what a
  supplied factory produces is validated); a valid one is stored, a bare array or object
  of those kinds wrapped into a factory; an invalid one is reported through \<^verbatim>\<open>warn\<close> and
  the default is left as it was. The kind of a descriptor is the name it carries.
\<close>

definition factory_kind :: "vuetype \<Rightarrow> bool" where
  "factory_kind d = (vt_name d \<in> {Some ''array'', Some ''object'', Some ''shape''})"

definition def_probe :: "vuetype \<Rightarrow> jsval \<Rightarrow> jsval" where
  "def_probe d v =
     (case v of
        JFun r \<Rightarrow> if factory_kind d then r else v
      | _ \<Rightarrow> v)"

definition def_stored :: "vuetype \<Rightarrow> jsval \<Rightarrow> jsval" where
  "def_stored d v = (if factory_kind d \<and> (isArray v \<or> isPlainObject v) then JFun v else v)"

definition def_ok :: "vuetype \<Rightarrow> jsval \<Rightarrow> store \<Rightarrow> bool" where
  "def_ok d v s = (fst (validateType (SpecObj d) (def_probe d v) True s) = RTrue)"

definition "def" :: "addr \<Rightarrow> jsval \<Rightarrow> store \<Rightarrow> addr \<times> store" where
  "def a v s =
     (case descs s a of
        None \<Rightarrow> (a, s)
      | Some d \<Rightarrow>
          if v = JUndefined then (a, update_desc a (\<lambda>d. d\<lparr>vt_default := None\<rparr>) s)
          else (let s1 = snd (validateType (SpecObj d) (def_probe d v) True s) in
                if def_ok d v s
                then (a, update_desc a (\<lambda>d. d\<lparr>vt_default := Some (def_stored d v)\<rparr>) s1)
                else (a, warn (InvalidDefault (vt_name d) v) s1)))"

text \<open>
  Modelled from the spec: \<^verbatim>\<open>validate\<close> of the descriptor builder (spec 4.2), in
  \<^verbatim>\<open>src/utils\<close>, which is not among the sources. \<^verbatim>\<open>validate(fn)\<close> installs \<open>fn\<close> as the
  validator of a descriptor that has the method; on any other descriptor the call is a
  programming error.
\<close>

datatype error = TypeError string

definition validate_method :: "addr \<Rightarrow> validator_fn \<Rightarrow> store \<Rightarrow> error + (addr \<times> store)" where
  "validate_method a fn s =
     (case descs s a of
        Some d \<Rightarrow>
          if vt_validable d
            then Inr (a, update_desc a (\<lambda>d. d\<lparr>vt_validator := Some fn\<rparr>) s)
            else Inl (TypeError ''validate is not a function'')
      | None \<Rightarrow> Inl (TypeError ''validate is not a function''))"

text \<open>
  Modelled from the spec: the native validator factories of
  \<^verbatim>\<open>src/validators/native\<close> (spec 4.3 and 4.2), which is not among the sources. There
  is one per primitive kind; each wraps one predicate, except \<open>any\<close>, which accepts
  everything; every kind but \<open>integer\<close> and \<open>symbol\<close> has the \<^verbatim>\<open>validate\<close> method. A
  factory sets neither \<^verbatim>\<open>required\<close> nor \<^verbatim>\<open>default\<close>.
\<close>

datatype kind = KAny | KFunc | KBool | KString | KNumber | KArray | KObject | KInteger | KSymbol

fun kind_name :: "kind \<Rightarrow> string" where
  "kind_name KAny = ''any''"
| "kind_name KFunc = ''func''"
| "kind_name KBool = ''bool''"
| "kind_name KString = ''string''"
| "kind_name KNumber = ''number''"
| "kind_name KArray = ''array''"
| "kind_name KObject = ''object''"
| "kind_name KInteger = ''integer''"
| "kind_name KSymbol = ''symbol''"

fun kind_type :: "kind \<Rightarrow> ptype option" where
  "kind_type KAny = None"
| "kind_type KFunc = Some (Native CFunction)"
| "kind_type KBool = Some (Native CBoolean)"
| "kind_type KString = Some (Native CString)"
| "kind_type KNumber = Some (Native CNumber)"
| "kind_type KArray = Some (Native CArray)"
| "kind_type KObject = Some (Native CObject)"
| "kind_type KInteger = Some (Native CNumber)"
| "kind_type KSymbol = None"

definition first_arg :: "jsval list \<Rightarrow> jsval" where
  "first_arg args = (case args of [] \<Rightarrow> JUndefined | v # _ \<Rightarrow> v)"

fun kind_validator :: "kind \<Rightarrow> validator_fn option" where
  "kind_validator KAny = None"
| "kind_validator KFunc = Some (\<lambda>args. (isFunction (first_arg args), []))"
| "kind_validator KBool = Some (\<lambda>args. (isBoolean (first_arg args), []))"
| "kind_validator KString = Some (\<lambda>args. (isString (first_arg args), []))"
| "kind_validator KNumber = Some (\<lambda>args. (isNumber (first_arg args), []))"
| "kind_validator KArray = Some (\<lambda>args. (isArray (first_arg args), []))"
| "kind_validator KObject = Some (\<lambda>args. (isPlainObject (first_arg args), []))"
| "kind_validator KInteger = Some (\<lambda>args. (isInteger (first_arg args), []))"
| "kind_validator KSymbol = Some (\<lambda>args. (isSymbol (first_arg args), []))"

definition kind_options :: "kind \<Rightarrow> vuetype" where
  "kind_options k =
     \<lparr>vt_name = None, vt_type = kind_type k, vt_required = None, vt_default = None,
      vt_validator = kind_validator k, vt_validable = False\<rparr>"

definition native :: "kind \<Rightarrow> store \<Rightarrow> addr \<times> store" where
  "native k s =
     (let (a, s1) = alloc_desc (kind_options k) s in
      if k = KInteger \<or> k = KSymbol then toType (kind_name k) a s1
      else toValidableType (kind_name k) a s1)"


text \<open>
  Modelled from the spec: \<^verbatim>\<open>isVueTypeDef\<close> and \<^verbatim>\<open>stubTrue\<close> of \<^verbatim>\<open>src/utils\<close>, which
  is not among the sources. A value is a VueTypes descriptor when it is an object
  carrying a descriptor name (spec 9); \<^verbatim>\<open>stubTrue\<close> accepts everything.
\<close>

definition isVueTypeDef :: "store \<Rightarrow> ptype option \<Rightarrow> bool" where
  "isVueTypeDef s t =
     (case t of
        Some (DescRef b) \<Rightarrow> (case descs s b of Some d \<Rightarrow> vt_name d \<noteq> None | None \<Rightarrow> False)
      | _ \<Rightarrow> False)"

definition stubTrue :: validator_fn where
  "stubTrue args = (True, [])"

text \<open>
  Modelled from the spec: the validator that \<^verbatim>\<open>custom(predicate, errorMessage)\<close> of
  \<^verbatim>\<open>src/validators/custom\<close> builds (spec 4.4), which is not among the sources: it
  accepts a value when the predicate holds of it, and reports the error message through
  \<^verbatim>\<open>warn\<close> when it does not.
\<close>

definition custom_validator :: "(jsval \<Rightarrow> bool) \<Rightarrow> string \<Rightarrow> validator_fn" where
  "custom_validator predicate msg args =
     (if predicate (first_arg args) then (True, []) else (False, [Message msg]))"

section \<open>The namespace (\<^verbatim>\<open>src/index.ts\<close>)\<close>

text \<open>
  What \<^verbatim>\<open>extend\<close> installs under a name: the accessor closure of the getter form
  (lines 142 to 151), or the function of the method form (lines 153 to 170). Each keeps
  the \<^verbatim>\<open>name\<close>, the \<^verbatim>\<open>validate\<close> flag and the reference to \<^verbatim>\<open>opts\<close>; the method form
  also keeps the \<^verbatim>\<open>validator\<close> it read from \<^verbatim>\<open>opts\<close> at line 153.
\<close>

datatype entry =
    Getter string bool addr
  | Method string bool addr "validator_fn option"

text \<open>
  The class \<^verbatim>\<open>VueTypes\<close> that one call of \<^verbatim>\<open>createTypes\<close> returns, with the two
  variables of its closure: \<open>defs\<close>, the caller's configuration object, and \<open>defaults\<close>,
  the namespace's own record (a variable: the setter rebinds it).
\<close>

record namespace =
  defs :: addr
  defaults :: addr
  registry :: "string \<rightharpoonup> entry"

text \<open>The own properties that the class has before any \<^verbatim>\<open>extend\<close>: those every class
  has, and the static members declared at lines 43 to 189.\<close>

definition static_names :: "string list" where
  "static_names =
     [''length'', ''name'', ''prototype'',
      ''sensibleDefaults'', ''any'', ''func'', ''bool'', ''string'', ''number'', ''array'',
      ''object'', ''integer'', ''symbol'', ''custom'', ''oneOf'', ''instanceOf'',
      ''oneOfType'', ''arrayOf'', ''objectOf'', ''shape'', ''extend'', ''utils'']"

text \<open>Modelled from the spec: \<^verbatim>\<open>has\<close> of \<^verbatim>\<open>src/utils\<close>, which is not among the sources:
  the test that decides whether a name already exists in the namespace (spec 3,
  Registry), an own-property test.\<close>

definition has :: "namespace \<Rightarrow> string \<Rightarrow> bool" where
  "has ns n = (n \<in> set static_names \<or> registry ns n \<noteq> None)"

text \<open>The fields of the object at an address, as a spread \<^verbatim>\<open>{ ...x }\<close> reads them.\<close>

definition obj_at :: "store \<Rightarrow> addr \<Rightarrow> config" where
  "obj_at s a = (case objs s a of None \<Rightarrow> Map.empty | Some c \<Rightarrow> c)"

text \<open>
  \<^verbatim>\<open>createTypes(defs = typeDefaults())\<close>, lines 38 to 40 and 192. \<open>td\<close> is the object
  that \<^verbatim>\<open>typeDefaults()\<close> of \<^verbatim>\<open>src/sensibles\<close> builds, taken as a parameter; it is
  allocated only when the caller passes no configuration.
\<close>

definition createTypes :: "config \<Rightarrow> addr option \<Rightarrow> store \<Rightarrow> namespace \<times> store" where
  "createTypes td arg s =
     (let (d, s1) = (case arg of None \<Rightarrow> alloc_obj td s | Some a \<Rightarrow> (a, s));
          (l, s2) = alloc_obj (obj_at s1 d) s1
      in (\<lparr>defs = d, defaults = l, registry = Map.empty\<rparr>, s2))"

text \<open>The accessor pair \<^verbatim>\<open>sensibleDefaults\<close>, lines 43 to 57.\<close>

definition get_sensibleDefaults :: "namespace \<Rightarrow> addr" where
  "get_sensibleDefaults ns = defaults ns"

datatype setter_arg = SBool bool | SObj addr

fun set_sensibleDefaults :: "setter_arg \<Rightarrow> namespace \<Rightarrow> store \<Rightarrow> namespace \<times> store" where
  "set_sensibleDefaults (SBool False) ns s =
     (let (l, s1) = alloc_obj Map.empty s in (ns\<lparr>defaults := l\<rparr>, s1))"
| "set_sensibleDefaults (SBool True) ns s =
     (let (l, s1) = alloc_obj (obj_at s (defs ns)) s in (ns\<lparr>defaults := l\<rparr>, s1))"
| "set_sensibleDefaults (SObj a) ns s =
     (let (l, s1) = alloc_obj (obj_at s a) s in (ns\<lparr>defaults := l\<rparr>, s1))"

text \<open>The convenience getters, lines 59 to 85.\<close>

definition with_default :: "kind \<Rightarrow> string \<Rightarrow> namespace \<Rightarrow> store \<Rightarrow> addr \<times> store" where
  "with_default k key ns s =
     (let (a, s1) = native k s in def a (get_prop (obj_at s1 (defaults ns)) key) s1)"

fun VueTypes_get :: "kind \<Rightarrow> namespace \<Rightarrow> store \<Rightarrow> addr \<times> store" where
  "VueTypes_get KAny ns s = native KAny s"
| "VueTypes_get KFunc ns s = with_default KFunc ''func'' ns s"
| "VueTypes_get KBool ns s = with_default KBool ''bool'' ns s"
| "VueTypes_get KString ns s = with_default KString ''string'' ns s"
| "VueTypes_get KNumber ns s = with_default KNumber ''number'' ns s"
| "VueTypes_get KArray ns s = with_default KArray ''array'' ns s"
| "VueTypes_get KObject ns s = with_default KObject ''object'' ns s"
| "VueTypes_get KInteger ns s = with_default KInteger ''integer'' ns s"
| "VueTypes_get KSymbol ns s = native KSymbol s"


text \<open>
  \<^verbatim>\<open>extend\<close>, lines 95 to 174. The spec object is destructured at line 103 into
  \<^verbatim>\<open>name\<close>, \<^verbatim>\<open>validate\<close>, \<^verbatim>\<open>getter\<close> and a new object \<^verbatim>\<open>opts\<close> with the remaining
  fields.
\<close>

record extend_props =
  x_name :: string
  x_validate :: "bool option"
  x_getter :: "bool option"
  x_type :: "ptype option"
  x_required :: "bool option"
  x_default :: "jsval option"
  x_validator :: "validator_fn option"

definition rest_opts :: "extend_props \<Rightarrow> vuetype" where
  "rest_opts p =
     \<lparr>vt_name = None, vt_type = x_type p, vt_required = x_required p,
      vt_default = x_default p, vt_validator = x_validator p, vt_validable = False\<rparr>"

definition desc_at :: "store \<Rightarrow> addr \<Rightarrow> vuetype" where
  "desc_at s a =
     (case descs s a of
        Some d \<Rightarrow> d
      | None \<Rightarrow> \<lparr>vt_name = None, vt_type = None, vt_required = None, vt_default = None,
                 vt_validator = None, vt_validable = False\<rparr>)"

text \<open>Lines 118 to 127: a key of the base descriptor is copied when its value is not
  \<^verbatim>\<open>undefined\<close>.\<close>

datatype okey = OType | ORequired | ODefault

fun inherit_key :: "vuetype \<Rightarrow> okey \<Rightarrow> vuetype \<Rightarrow> vuetype" where
  "inherit_key base OType opts =
     (case vt_type base of None \<Rightarrow> opts | Some t \<Rightarrow> opts\<lparr>vt_type := Some t\<rparr>)"
| "inherit_key base ORequired opts =
     (case vt_required base of None \<Rightarrow> opts | Some r \<Rightarrow> opts\<lparr>vt_required := Some r\<rparr>)"
| "inherit_key base ODefault opts =
     (case vt_default base of
        None \<Rightarrow> opts
      | Some v \<Rightarrow> if v = JUndefined then opts else opts\<lparr>vt_default := Some v\<rparr>)"

text \<open>
  The function of lines 131 to 136: it calls the base validator \<open>g\<close> and the spec's own
  validator \<open>h\<close> on the same arguments and joins them with \<^verbatim>\<open>&&\<close>, so \<open>h\<close> runs only when
  \<open>g\<close> returned a truthy value.
\<close>

definition conj_validator :: "validator_fn \<Rightarrow> validator_fn \<Rightarrow> validator_fn" where
  "conj_validator g h args =
     (case g args of
        (r, ms) \<Rightarrow> if r then (case h args of (r', ms') \<Rightarrow> (r', ms @ ms')) else (False, ms))"

text \<open>
  Lines 115 to 137, on the fields of \<^verbatim>\<open>opts\<close>. The function of line 131 reads
  \<^verbatim>\<open>type.validator\<close> when it is called; the model reads it when \<^verbatim>\<open>extend\<close> runs, which
  is the same function as long as the base descriptor's validator is not reassigned in
  between.
\<close>

definition inherit :: "vuetype \<Rightarrow> validator_fn \<Rightarrow> vuetype \<Rightarrow> vuetype" where
  "inherit base validator opts =
     (let o1 = opts\<lparr>vt_type := None\<rparr>;
          o2 = fold (inherit_key base) [OType, ORequired, ODefault] o1
      in (case vt_validator base of
            None \<Rightarrow> o2
          | Some g \<Rightarrow> o2\<lparr>vt_validator := Some (conj_validator g validator)\<rparr>))"

definition already_defined :: "string \<Rightarrow> error" where
  "already_defined name =
     TypeError (''[VueTypes error]: Type '' @ [CHR 0x22] @ name @ [CHR 0x22] @ '' already defined'')"

text \<open>Lines 110 to 138 on the store: \<^verbatim>\<open>opts\<close> is changed in place from the base
  descriptor that \<^verbatim>\<open>type\<close> refers to.\<close>

definition inherit_from :: "ptype option \<Rightarrow> validator_fn \<Rightarrow> addr \<Rightarrow> store \<Rightarrow> store" where
  "inherit_from t validator opts s =
     (case t of
        Some (DescRef b) \<Rightarrow> update_desc opts (inherit (desc_at s b) validator) s
      | _ \<Rightarrow> s)"

text \<open>
  Lines 103 to 173, for one spec. The result is the exception thrown, if any, with the
  namespace and the store as the call leaves them.
\<close>

definition extend1 :: "extend_props \<Rightarrow> namespace \<Rightarrow> store \<Rightarrow> error option \<times> namespace \<times> store" where
  "extend1 p ns s =
     (let name = x_name p;
          validate0 = (case x_validate p of None \<Rightarrow> False | Some b \<Rightarrow> b);
          getter = (case x_getter p of None \<Rightarrow> False | Some b \<Rightarrow> b);
          (opts, s1) = alloc_desc (rest_opts p) s
      in if has ns name then (Some (already_defined name), ns, s1)
         else
           (let validator = (case x_validator p of None \<Rightarrow> stubTrue | Some f \<Rightarrow> f);
                inh = isVueTypeDef s1 (x_type p);
                s2 = (if inh then inherit_from (x_type p) validator opts s1 else s1);
                validate = (if inh then False else validate0);
                e = (if getter then Getter name validate opts
                     else Method name validate opts (vt_validator (desc_at s2 opts)))
            in (None, ns\<lparr>registry := (registry ns)(name \<mapsto> e)\<rparr>, s2)))"

text \<open>Lines 98 to 101: an array of specs is installed one by one; an exception stops
  the loop and leaves what was installed before it.\<close>

fun extend_all :: "extend_props list \<Rightarrow> namespace \<Rightarrow> store \<Rightarrow> error option \<times> namespace \<times> store" where
  "extend_all [] ns s = (None, ns, s)"
| "extend_all (p # ps) ns s =
     (case extend1 p ns s of
        (Some e, ns1, s1) \<Rightarrow> (Some e, ns1, s1)
      | (None, ns1, s1) \<Rightarrow> extend_all ps ns1 s1)"

datatype extend_arg = One extend_props | Many "extend_props list"

fun extend :: "extend_arg \<Rightarrow> namespace \<Rightarrow> store \<Rightarrow> error option \<times> namespace \<times> store" where
  "extend (Many ps) ns s = extend_all ps ns s"
| "extend (One p) ns s = extend1 p ns s"

text \<open>
  What the installed property does. \<^verbatim>\<open>Object.assign({}, opts)\<close> builds a new object
  with the enumerable fields of \<^verbatim>\<open>opts\<close>; the getter form (lines 143 to 149) turns it
  into a descriptor; the method form (lines 155 to 168) also binds the call's arguments
  in front of the validator's own.
\<close>

definition assign_copy :: "vuetype \<Rightarrow> vuetype" where
  "assign_copy d =
     \<lparr>vt_name = None, vt_type = vt_type d, vt_required = vt_required d,
      vt_default = vt_default d, vt_validator = vt_validator d, vt_validable = False\<rparr>"

definition entry_get :: "string \<Rightarrow> bool \<Rightarrow> addr \<Rightarrow> store \<Rightarrow> addr \<times> store" where
  "entry_get name validate opts s =
     (let (typeOptions, s1) = alloc_desc (assign_copy (desc_at s opts)) s
      in if validate then toValidableType name typeOptions s1 else toType name typeOptions s1)"

definition entry_value ::
  "string \<Rightarrow> bool \<Rightarrow> addr \<Rightarrow> validator_fn option \<Rightarrow> jsval list \<Rightarrow> store \<Rightarrow> addr \<times> store" where
  "entry_value name validate opts validator args s =
     (let (typeOptions, s1) = alloc_desc (assign_copy (desc_at s opts)) s;
          (ret, s2) = (if validate then toValidableType name typeOptions s1
                       else toType name typeOptions s1)
      in (case validator of
            None \<Rightarrow> (ret, s2)
          | Some f \<Rightarrow>
              (ret, update_desc ret (\<lambda>d. d\<lparr>vt_validator := Some (\<lambda>rest. f (args @ rest))\<rparr>) s2)))"

fun use_entry :: "entry \<Rightarrow> jsval list \<Rightarrow> store \<Rightarrow> addr \<times> store" where
  "use_entry (Getter name validate opts) args s = entry_get name validate opts s"
| "use_entry (Method name validate opts validator) args s =
     entry_value name validate opts validator args s"

text \<open>\<^verbatim>\<open>utils\<close>, lines 176 to 189.\<close>

definition utils_validate :: "jsval \<Rightarrow> vspec \<Rightarrow> store \<Rightarrow> vresult \<times> store" where
  "utils_validate v type s = validateType type v True s"

definition utils_toType :: "string \<Rightarrow> addr \<Rightarrow> bool \<Rightarrow> store \<Rightarrow> addr \<times> store" where
  "utils_toType name obj validable s =
     (if validable then toValidableType name obj s else toType name obj s)"


section \<open>Derived notions\<close>

text \<open>The verdict of steps 2 to 4 of spec 4.5 on a descriptor and a value, apart from
  any store: what the validator returns when there is one, what the type check says
  otherwise.\<close>

definition passes :: "vuetype \<Rightarrow> jsval \<Rightarrow> bool" where
  "passes d v =
     (if vt_required d \<noteq> Some True \<and> v = JUndefined then True
      else (case vt_validator d of
              Some f \<Rightarrow> fst (f [v])
            | None \<Rightarrow> (case vt_type d of None \<Rightarrow> True | Some t \<Rightarrow> type_accepts t v)))"

text \<open>The operations a descriptor offers (spec 4.2), applied to the descriptor at one
  address; a rejected \<^verbatim>\<open>validate\<close> call leaves the store as it was.\<close>

datatype chain_op = OpDef jsval | OpIsRequired | OpValidate validator_fn

fun chain :: "addr \<Rightarrow> chain_op \<Rightarrow> store \<Rightarrow> store" where
  "chain a (OpDef v) s = snd (def a v s)"
| "chain a OpIsRequired s = snd (isRequired a s)"
| "chain a (OpValidate fn) s =
     (case validate_method a fn s of Inl _ \<Rightarrow> s | Inr (_, s') \<Rightarrow> s')"

text \<open>A store is well formed when every object in it was allocated: its address is
  below the next one to be handed out.\<close>

definition wf_store :: "store \<Rightarrow> bool" where
  "wf_store s = (dom (descs s) \<union> dom (objs s) \<subseteq> {..<nxt s})"

fun entry_opts :: "entry \<Rightarrow> addr" where
  "entry_opts (Getter name validate opts) = opts"
| "entry_opts (Method name validate opts validator) = opts"

fun entry_name :: "entry \<Rightarrow> string" where
  "entry_name (Getter name validate opts) = name"
| "entry_name (Method name validate opts validator) = name"

fun entry_validate :: "entry \<Rightarrow> bool" where
  "entry_validate (Getter name validate opts) = validate"
| "entry_validate (Method name validate opts validator) = validate"

text \<open>The fields of the descriptor that an installed property builds from the fields \<open>d\<close>
  of its stored options.\<close>

fun built :: "entry \<Rightarrow> jsval list \<Rightarrow> vuetype \<Rightarrow> vuetype" where
  "built (Getter name validate opts) args d =
     (assign_copy d)\<lparr>vt_name := Some name, vt_validable := validate\<rparr>"
| "built (Method name validate opts validator) args d =
     (assign_copy d)\<lparr>vt_name := Some name, vt_validable := validate,
        vt_validator := (case validator of
                           None \<Rightarrow> vt_validator d
                         | Some f \<Rightarrow> Some (\<lambda>rest. f (args @ rest)))\<rparr>"

text \<open>
  The fields that the chain methods and the getters produce, as functions of the fields
  they start from: \<open>def_fields\<close> for \<^verbatim>\<open>def\<close>, \<open>native_fields\<close> for a native factory,
  \<open>getter_fields\<close> for a convenience getter reading the defaults record \<open>c\<close>; \<open>got\<close> is
  the descriptor a getter returns.
\<close>

definition def_fields :: "vuetype \<Rightarrow> jsval \<Rightarrow> vuetype" where
  "def_fields d v =
     (if v = JUndefined then d\<lparr>vt_default := None\<rparr>
      else if passes d (def_probe d v) then d\<lparr>vt_default := Some (def_stored d v)\<rparr>
      else d)"

definition native_fields :: "kind \<Rightarrow> vuetype" where
  "native_fields k =
     \<lparr>vt_name = Some (kind_name k), vt_type = kind_type k, vt_required = None,
      vt_default = None, vt_validator = kind_validator k,
      vt_validable = (k \<noteq> KInteger \<and> k \<noteq> KSymbol)\<rparr>"

definition getter_fields :: "kind \<Rightarrow> config \<Rightarrow> vuetype" where
  "getter_fields k c =
     (if k = KAny \<or> k = KSymbol then native_fields k
      else def_fields (native_fields k) (get_prop c (kind_name k)))"

definition got :: "kind \<Rightarrow> namespace \<Rightarrow> store \<Rightarrow> vuetype" where
  "got k ns s = (case VueTypes_get k ns s of (a, s') \<Rightarrow> desc_at s' a)"

text \<open>
  What a caller can do to the defaults of a namespace: assign through the setter
  \<^verbatim>\<open>sensibleDefaults\<close>, write a property of the record that the getter
  \<^verbatim>\<open>sensibleDefaults\<close> returns, or write a property of some object it holds (the
  configuration it passed to \<^verbatim>\<open>createTypes\<close>, for one). An action is foreign to a record
  when it is not a direct write to that record.
\<close>

definition write_obj :: "addr \<Rightarrow> string \<Rightarrow> jsval \<Rightarrow> store \<Rightarrow> store" where
  "write_obj a k v s =
     (case objs s a of
        None \<Rightarrow> s
      | Some c \<Rightarrow> s\<lparr>objs := (objs s)(a \<mapsto> c(k \<mapsto> v))\<rparr>)"

datatype action = Assign setter_arg | WriteOwn string jsval | WriteAt addr string jsval

fun act :: "action \<Rightarrow> namespace \<times> store \<Rightarrow> namespace \<times> store" where
  "act (Assign v) (ns, s) = set_sensibleDefaults v ns s"
| "act (WriteOwn k v) (ns, s) = (ns, write_obj (get_sensibleDefaults ns) k v s)"
| "act (WriteAt a k v) (ns, s) = (ns, write_obj a k v s)"

fun foreign :: "addr \<Rightarrow> action \<Rightarrow> bool" where
  "foreign l (WriteAt a k v) = (a \<noteq> l)"
| "foreign l _ = True"

text \<open>The fields of the record that an assignment through the setter installs.\<close>

fun assigned :: "setter_arg \<Rightarrow> namespace \<Rightarrow> store \<Rightarrow> config" where
  "assigned (SBool False) ns s = Map.empty"
| "assigned (SBool True) ns s = obj_at s (defs ns)"
| "assigned (SObj a) ns s = obj_at s a"

section \<open>Concrete runs\<close>

text \<open>The predicate \<^verbatim>\<open>minLength\<close> of the guide (\<^verbatim>\<open>docs/guide/validators.md\<close>), and the
  descriptor \<^verbatim>\<open>custom(minLength, 'theProp is not a string or is too short')\<close> built from
  it there.\<close>

definition minLength :: "jsval \<Rightarrow> bool" where
  "minLength v = (case v of JStr x \<Rightarrow> 6 \<le> length x | _ \<Rightarrow> False)"

definition theProp :: vuetype where
  "theProp =
     \<lparr>vt_name = Some ''custom'', vt_type = None, vt_required = None, vt_default = None,
      vt_validator = Some (custom_validator minLength ''theProp is not a string or is too short''),
      vt_validable = False\<rparr>"

definition empty_store :: store where
  "empty_store = \<lparr>objs = Map.empty, descs = Map.empty, nxt = 0, logs = [], silenced = False\<rparr>"

text \<open>The store after \<^verbatim>\<open>string().def('x')\<close>, and the one after \<^verbatim>\<open>number()\<close>, each run
  in the empty store: the descriptor is at address 0.\<close>

definition string_x :: store where
  "string_x = snd (def 0 (JStr ''x'') (snd (native KString empty_store)))"

definition number_0 :: store where
  "number_0 = snd (native KNumber empty_store)"

text \<open>
  A concrete run, used to exercise the theorems: \<^verbatim>\<open>createTypes()\<close> with the configuration
  \<open>sensible\<close> standing for what \<^verbatim>\<open>typeDefaults()\<close> returns, in the empty store, gives the
  namespace \<open>ns0\<close> and the store \<open>s0\<close>; \<^verbatim>\<open>integer()\<close> then puts the descriptor
  \<open>integer_2\<close> at address 2, giving \<open>s_int\<close>.
\<close>

definition sensible :: config where
  "sensible =
     [''func'' \<mapsto> JFun JUndefined, ''bool'' \<mapsto> JBool True, ''string'' \<mapsto> JStr [],
      ''number'' \<mapsto> JNum 0, ''array'' \<mapsto> JFun (JArr []), ''object'' \<mapsto> JFun (JObj []),
      ''integer'' \<mapsto> JNum 0]"

definition ns0 :: namespace where
  "ns0 = \<lparr>defs = 0, defaults = 1, registry = Map.empty\<rparr>"

definition s0 :: store where
  "s0 = \<lparr>objs = [0 \<mapsto> sensible, 1 \<mapsto> sensible], descs = Map.empty, nxt = 2, logs = [], silenced = False\<rparr>"

definition integer_2 :: vuetype where
  "integer_2 =
     \<lparr>vt_name = Some ''integer'', vt_type = Some (Native CNumber), vt_required = None,
      vt_default = None, vt_validator = kind_validator KInteger, vt_validable = False\<rparr>"

definition s_int :: store where
  "s_int = s0\<lparr>descs := [2 \<mapsto> integer_2], nxt := 3\<rparr>"

text \<open>
  The spec \<^verbatim>\<open>{ name: 'maxInt', validate: true, type: integer(), validator: (max, v) => v <= max }\<close>
  in method form, the options \<^verbatim>\<open>extend\<close> stores for it at address 3 and the entry it
  installs.
\<close>

definition le_max :: validator_fn where
  "le_max args = ((case args of [JNum m, JNum v] \<Rightarrow> v \<le> m | _ \<Rightarrow> False), [])"

definition maxInt :: extend_props where
  "maxInt =
     \<lparr>x_name = ''maxInt'', x_validate = Some True, x_getter = None,
      x_type = Some (DescRef 2), x_required = None, x_default = None,
      x_validator = Some le_max\<rparr>"

definition maxInt_opts :: vuetype where
  "maxInt_opts =
     \<lparr>vt_name = None, vt_type = Some (Native CNumber), vt_required = None, vt_default = None,
      vt_validator = Some (conj_validator (\<lambda>args. (isInteger (first_arg args), [])) le_max),
      vt_validable = False\<rparr>"

definition maxInt_entry :: entry where
  "maxInt_entry =
     Method ''maxInt'' False 3
       (Some (conj_validator (\<lambda>args. (isInteger (first_arg args), [])) le_max))"

definition ns_max :: namespace where
  "ns_max = ns0\<lparr>registry := [''maxInt'' \<mapsto> maxInt_entry]\<rparr>"

definition s_max :: store where
  "s_max = s_int\<lparr>descs := [2 \<mapsto> integer_2, 3 \<mapsto> maxInt_opts], nxt := 4\<rparr>"

definition other :: extend_props where
  "other = maxInt\<lparr>x_name := ''other''\<rparr>"

text \<open>
  A second run: the caller's configuration object is at address 0 of \<open>cfg_store\<close>;
  \<^verbatim>\<open>createTypes\<close> called on it gives \<open>ns0\<close> and \<open>s0\<close> again, and called on it once
  more gives \<open>ns_b\<close> and \<open>s_b\<close>. \<open>frac_config\<close> is the configuration
  \<^verbatim>\<open>{ integer: 1.5 }\<close>.
\<close>

definition cfg_store :: store where
  "cfg_store = \<lparr>objs = [0 \<mapsto> sensible], descs = Map.empty, nxt = 1, logs = [], silenced = False\<rparr>"

definition ns_b :: namespace where
  "ns_b = \<lparr>defs = 0, defaults = 2, registry = Map.empty\<rparr>"

definition s_b :: store where
  "s_b = \<lparr>objs = [0 \<mapsto> sensible, 1 \<mapsto> sensible, 2 \<mapsto> sensible], descs = Map.empty,
          nxt = 3, logs = [], silenced = False\<rparr>"

definition frac_config :: config where
  "frac_config = [''integer'' \<mapsto> JNum (3 / 2)]"

text \<open>A third run: \<^verbatim>\<open>createTypes({ integer: 1.5 })\<close>, the caller's object at address 0 of
  \<open>frac_store\<close>, gives \<open>ns_frac\<close> and \<open>s_frac\<close>.\<close>

definition frac_store :: store where
  "frac_store = \<lparr>objs = [0 \<mapsto> frac_config], descs = Map.empty, nxt = 1, logs = [], silenced = False\<rparr>"

definition ns_frac :: namespace where
  "ns_frac = \<lparr>defs = 0, defaults = 1, registry = Map.empty\<rparr>"

definition s_frac :: store where
  "s_frac = \<lparr>objs = [0 \<mapsto> frac_config, 1 \<mapsto> frac_config], descs = Map.empty, nxt = 2, logs = [], silenced = False\<rparr>"

section \<open>Supporting lemmas\<close>

subsection \<open>The sink and the dispatcher\<close>

lemma warn_simps:
  "objs (warn m s) = objs s" "descs (warn m s) = descs s" "nxt (warn m s) = nxt s"
  "silenced (warn m s) = silenced s"
  by (simp_all add: warn_def)

lemma fold_warn_silenced: "silenced s \<Longrightarrow> fold warn ms s = s"
  by (induction ms) (simp_all add: warn_def)

lemma call_validator_silenced:
  "silenced s \<Longrightarrow> call_validator f args s = (fst (f args), s)"
  by (simp add: call_validator_def fold_warn_silenced split: prod.splits)

lemma probe_silenced: "silenced s \<Longrightarrow> probe d v s = (passes d v, s)"
  by (simp add: probe_def passes_def call_validator_silenced Let_def split: option.splits)

lemma validateType_unfold:
  "validateType sp v silent s =
     (if passes (normalize_spec sp) v then (RTrue, s)
      else if silent
        then (RMsg (TypeMismatch (vt_name (normalize_spec sp)) (expected (normalize_spec sp)) v), s)
        else (RFalse,
              warn (TypeMismatch (vt_name (normalize_spec sp)) (expected (normalize_spec sp)) v) s))"
  by (simp add: validateType_def probe_silenced Let_def)

lemma def_ok_passes: "def_ok d v s = passes d (def_probe d v)"
  by (simp add: def_ok_def validateType_unfold normalize_spec_def)

lemma def_unfold:
  "def a v s =
     (case descs s a of
        None \<Rightarrow> (a, s)
      | Some d \<Rightarrow>
          if v = JUndefined then (a, update_desc a (\<lambda>d. d\<lparr>vt_default := None\<rparr>) s)
          else if passes d (def_probe d v)
            then (a, update_desc a (\<lambda>d. d\<lparr>vt_default := Some (def_stored d v)\<rparr>) s)
            else (a, warn (InvalidDefault (vt_name d) v) s))"
  by (simp add: def_def def_ok_passes validateType_unfold Let_def split: option.splits)

subsection \<open>Descriptors\<close>

lemma desc_at_update: "descs s a = Some d \<Longrightarrow> desc_at (update_desc a f s) a = f d"
  by (simp add: desc_at_def update_desc_def)

lemma native_fresh:
  "native k s = (a, s1) \<Longrightarrow>
   a = nxt s \<and>
   descs s1 a = Some ((kind_options k)\<lparr>vt_name := Some (kind_name k),
                                      vt_validable := (k \<noteq> KInteger \<and> k \<noteq> KSymbol)\<rparr>)"
  by (auto simp: native_def alloc_desc_def toType_def toValidableType_def update_desc_def
           split: if_splits)

lemma string_x_0:
  "descs string_x 0 =
     Some \<lparr>vt_name = Some ''string'', vt_type = Some (Native CString), vt_required = None,
           vt_default = Some (JStr ''x''), vt_validator = kind_validator KString,
           vt_validable = True\<rparr>"
  by (simp add: string_x_def empty_store_def native_def alloc_desc_def toValidableType_def
        update_desc_def kind_options_def def_unfold
        passes_def def_probe_def def_stored_def factory_kind_def first_arg_def)

lemma number_0_0:
  "descs number_0 0 =
     Some \<lparr>vt_name = Some ''number'', vt_type = Some (Native CNumber), vt_required = None,
           vt_default = None, vt_validator = kind_validator KNumber, vt_validable = True\<rparr>"
  by (simp add: number_0_def empty_store_def native_def alloc_desc_def toValidableType_def
        update_desc_def kind_options_def)

lemma chain_keeps_required:
  "vt_required (desc_at s a) = Some True \<Longrightarrow>
   vt_required (desc_at (chain a op s) a) = Some True"
  by (cases op)
     (auto simp: def_unfold isRequired_def validate_method_def update_desc_def desc_at_def warn_def
           split: option.splits if_splits)

lemma fold_chain_keeps_required:
  "vt_required (desc_at s a) = Some True \<Longrightarrow>
   vt_required (desc_at (fold (chain a) ops s) a) = Some True"
  by (induction ops arbitrary: s) (simp_all add: chain_keeps_required)

subsection \<open>Stepping through \<^verbatim>\<open>extend\<close>\<close>

lemma update_desc_simps:
  "descs (update_desc a f s) b = (if b = a then map_option f (descs s a) else descs s b)"
  "objs (update_desc a f s) = objs s"
  "nxt (update_desc a f s) = nxt s"
  "logs (update_desc a f s) = logs s"
  by (simp_all add: update_desc_def split: option.splits)

lemma alloc_desc_simps:
  "fst (alloc_desc d s) = nxt s"
  "descs (snd (alloc_desc d s)) = (descs s)(nxt s \<mapsto> d)"
  "objs (snd (alloc_desc d s)) = objs s"
  "nxt (snd (alloc_desc d s)) = Suc (nxt s)"
  "logs (snd (alloc_desc d s)) = logs s"
  by (simp_all add: alloc_desc_def)

lemma inherit_from_simps:
  "b \<noteq> opts \<Longrightarrow> descs (inherit_from t v opts s) b = descs s b"
  "objs (inherit_from t v opts s) = objs s"
  "nxt (inherit_from t v opts s) = nxt s"
  "logs (inherit_from t v opts s) = logs s"
  by (simp_all add: inherit_from_def update_desc_simps split: option.splits ptype.splits)

lemma extend1_unfold:
  "extend1 p ns s =
     (if has ns (x_name p)
      then (Some (already_defined (x_name p)), ns, snd (alloc_desc (rest_opts p) s))
      else (let s1 = snd (alloc_desc (rest_opts p) s);
                inh = isVueTypeDef s1 (x_type p);
                validator = (case x_validator p of None \<Rightarrow> stubTrue | Some f \<Rightarrow> f);
                s2 = (if inh then inherit_from (x_type p) validator (nxt s) s1 else s1);
                validate = (if inh then False
                            else (case x_validate p of None \<Rightarrow> False | Some b \<Rightarrow> b));
                e = (if (case x_getter p of None \<Rightarrow> False | Some b \<Rightarrow> b)
                     then Getter (x_name p) validate (nxt s)
                     else Method (x_name p) validate (nxt s) (vt_validator (desc_at s2 (nxt s))))
            in (None, ns\<lparr>registry := (registry ns)(x_name p \<mapsto> e)\<rparr>, s2)))"
  by (simp add: extend1_def Let_def alloc_desc_def)

lemma extend1_frame:
  assumes "extend1 p ns s = (err, ns', s')"
  shows "nxt s' = Suc (nxt s)" "\<forall>a. a \<noteq> nxt s \<longrightarrow> descs s' a = descs s a"
    "objs s' = objs s" "logs s' = logs s"
    "defs ns' = defs ns" "defaults ns' = defaults ns"
    "\<forall>n. has ns n \<longrightarrow> registry ns' n = registry ns n"
proof -
  show "nxt s' = Suc (nxt s)" "\<forall>a. a \<noteq> nxt s \<longrightarrow> descs s' a = descs s a"
    "objs s' = objs s" "logs s' = logs s"
    using assms
    by (auto simp: extend1_unfold Let_def alloc_desc_simps inherit_from_simps split: if_splits)
  show "defs ns' = defs ns" "defaults ns' = defaults ns"
    "\<forall>n. has ns n \<longrightarrow> registry ns' n = registry ns n"
    using assms
    by (auto simp: extend1_unfold Let_def split: if_splits)
qed

lemma extend1_has_mono: "extend1 p ns s = (err, ns', s') \<Longrightarrow> has ns n \<Longrightarrow> has ns' n"
  using extend1_frame(7) [of p ns s err ns' s'] by (auto simp: has_def)

lemma extend1_collision:
  "has ns (x_name p) \<Longrightarrow>
   extend1 p ns s = (Some (already_defined (x_name p)), ns, snd (alloc_desc (rest_opts p) s))"
  by (simp add: extend1_unfold)

lemma extend_all_frame:
  "extend_all ps ns s = (err, ns', s') \<Longrightarrow>
   nxt s \<le> nxt s' \<and> (\<forall>a. a < nxt s \<longrightarrow> descs s' a = descs s a)
   \<and> (\<forall>n. has ns n \<longrightarrow> registry ns' n = registry ns n)"
proof (induction ps arbitrary: ns s)
  case Nil
  then show ?case by simp
next
  case (Cons p ps)
  obtain e1 ns1 s1 where st: "extend1 p ns s = (e1, ns1, s1)" by (cases "extend1 p ns s")
  note f = extend1_frame [OF st]
  show ?case
  proof (cases e1)
    case None
    with Cons.prems st have rest: "extend_all ps ns1 s1 = (err, ns', s')" by simp
    from Cons.IH [OF rest] f extend1_has_mono [OF st] show ?thesis
      by (auto simp: less_Suc_eq)
  next
    case (Some e)
    with Cons.prems st have "ns' = ns1" "s' = s1" by simp_all
    with f show ?thesis by auto
  qed
qed

lemma extend_all_collision:
  "p \<in> set ps \<Longrightarrow> has ns (x_name p) \<Longrightarrow> fst (extend_all ps ns s) \<noteq> None"
proof (induction ps arbitrary: ns s)
  case Nil
  then show ?case by simp
next
  case (Cons q ps)
  obtain e1 ns1 s1 where st: "extend1 q ns s = (e1, ns1, s1)" by (cases "extend1 q ns s")
  show ?case
  proof (cases e1)
    case None
    have "p \<noteq> q" using Cons.prems(2) st None extend1_collision [of ns q s] by auto
    with Cons.prems have "p \<in> set ps" by simp
    from Cons.IH [OF this extend1_has_mono [OF st Cons.prems(2)]] st None show ?thesis by simp
  next
    case (Some e)
    with st show ?thesis by simp
  qed
qed

subsection \<open>Installed properties and chains\<close>

lemma toType_simps:
  "fst (toType n a s) = a"
  "snd (toType n a s) = update_desc a (\<lambda>d. d\<lparr>vt_name := Some n, vt_validable := False\<rparr>) s"
  "fst (toValidableType n a s) = a"
  "snd (toValidableType n a s) = update_desc a (\<lambda>d. d\<lparr>vt_name := Some n, vt_validable := True\<rparr>) s"
  by (simp_all add: toType_def toValidableType_def)

lemma use_entry_result:
  "fst (use_entry e args s) = nxt s"
  "descs (snd (use_entry e args s)) =
     (descs s)(nxt s \<mapsto> built e args (desc_at s (entry_opts e)))"
  "objs (snd (use_entry e args s)) = objs s"
  "nxt (snd (use_entry e args s)) = Suc (nxt s)"
  "logs (snd (use_entry e args s)) = logs s"
proof -
  show "fst (use_entry e args s) = nxt s"
    by (cases e) (auto simp: entry_get_def entry_value_def alloc_desc_def toType_def
          toValidableType_def split: option.splits)
  show "descs (snd (use_entry e args s)) =
     (descs s)(nxt s \<mapsto> built e args (desc_at s (entry_opts e)))"
    by (cases e) (auto simp: entry_get_def entry_value_def alloc_desc_def toType_def
          toValidableType_def update_desc_def assign_copy_def split: option.splits)
  show "objs (snd (use_entry e args s)) = objs s"
    by (cases e) (auto simp: entry_get_def entry_value_def alloc_desc_def toType_def
          toValidableType_def update_desc_def split: option.splits)
  show "nxt (snd (use_entry e args s)) = Suc (nxt s)"
    by (cases e) (auto simp: entry_get_def entry_value_def alloc_desc_def toType_def
          toValidableType_def update_desc_def split: option.splits)
  show "logs (snd (use_entry e args s)) = logs s"
    by (cases e) (auto simp: entry_get_def entry_value_def alloc_desc_def toType_def
          toValidableType_def update_desc_def split: option.splits)
qed

lemma chain_frame:
  "b \<noteq> a \<Longrightarrow> descs (chain a op s) b = descs s b"
  "objs (chain a op s) = objs s"
  "nxt (chain a op s) = nxt s"
proof -
  show "b \<noteq> a \<Longrightarrow> descs (chain a op s) b = descs s b"
    by (cases op) (auto simp: def_unfold isRequired_def validate_method_def update_desc_simps warn_def
          split: option.splits)
  show "objs (chain a op s) = objs s"
    by (cases op) (auto simp: def_unfold isRequired_def validate_method_def update_desc_simps warn_def
          split: option.splits)
  show "nxt (chain a op s) = nxt s"
    by (cases op) (auto simp: def_unfold isRequired_def validate_method_def update_desc_simps warn_def
          split: option.splits)
qed

lemma fold_chain_frame:
  "(b \<noteq> a \<longrightarrow> descs (fold (chain a) ops s) b = descs s b)
   \<and> objs (fold (chain a) ops s) = objs s
   \<and> nxt (fold (chain a) ops s) = nxt s"
  by (induction ops arbitrary: s) (simp_all add: chain_frame)

subsection \<open>The first concrete run\<close>

lemma ns0_simps: "defs ns0 = 0" "defaults ns0 = 1" "registry ns0 = Map.empty"
  by (simp_all add: ns0_def)

lemma createTypes_sensible: "createTypes sensible None empty_store = (ns0, s0)"
  by (simp add: createTypes_def alloc_obj_def empty_store_def obj_at_def ns0_def s0_def)

lemma native_integer: "native KInteger s0 = (2, s_int)"
  by (simp add: native_def alloc_desc_def toType_def update_desc_def kind_options_def s0_def
        s_int_def integer_2_def)

lemma wf_s_int: "wf_store s_int"
  by (simp add: wf_store_def s_int_def s0_def)

lemma not_has_maxInt: "\<not> has ns0 ''maxInt''"
  by (simp add: has_def static_names_def ns0_def)

lemma isVueTypeDef_maxInt: "isVueTypeDef s_int (x_type maxInt)"
  by (simp add: isVueTypeDef_def s_int_def maxInt_def integer_2_def)

lemma extend_maxInt: "extend1 maxInt ns0 s_int = (None, ns_max, s_max)"
proof -
  have h: "\<not> has ns0 (x_name maxInt)" using not_has_maxInt by (simp add: maxInt_def)
  show ?thesis
    by (simp add: extend1_unfold h Let_def)
       (simp add: maxInt_def alloc_desc_def rest_opts_def isVueTypeDef_def s_int_def integer_2_def
          inherit_from_def update_desc_def desc_at_def inherit_def maxInt_opts_def
          maxInt_entry_def ns0_simps ns_max_def s_max_def)
qed

lemma three_halves: "\<not> isInteger (JNum (3 / 2))" "isInteger (JNum 10)"
  by code_simp+

lemma s_max_simps: "nxt s_max = 4" "descs s_max 3 = Some maxInt_opts" "descs s_max 2 = Some integer_2"
  "wf_store s_max"
  by (simp_all add: s_max_def s_int_def s0_def wf_store_def)

lemma maxInt_name: "x_name maxInt = ''maxInt''"
  by (simp add: maxInt_def)

lemma ns_max_simps: "has ns_max (x_name maxInt)" "registry ns_max ''maxInt'' = Some maxInt_entry"
  "\<not> has ns_max (x_name other)"
  by (simp_all add: ns_max_def has_def maxInt_def other_def static_names_def ns0_simps)

subsection \<open>Specs that inherit from a descriptor\<close>

lemma isVueTypeDef_alloc:
  "wf_store s \<Longrightarrow> vt_name d = None \<Longrightarrow>
   isVueTypeDef (snd (alloc_desc d s)) t = isVueTypeDef s t"
  by (auto simp: isVueTypeDef_def alloc_desc_def wf_store_def split: option.splits ptype.splits)

lemma extend1_inherited:
  assumes "wf_store s" "isVueTypeDef s (x_type p)" "\<not> has ns (x_name p)"
  shows "\<exists>e. extend1 p ns s =
            (None, ns\<lparr>registry := (registry ns)(x_name p \<mapsto> e)\<rparr>,
             inherit_from (x_type p)
               (case x_validator p of None \<Rightarrow> stubTrue | Some f \<Rightarrow> f) (nxt s)
               (snd (alloc_desc (rest_opts p) s)))
          \<and> \<not> entry_validate e \<and> entry_opts e = nxt s"
proof -
  have "isVueTypeDef (snd (alloc_desc (rest_opts p) s)) (x_type p)"
    using assms(1,2) by (simp add: isVueTypeDef_alloc rest_opts_def)
  then show ?thesis using assms(3)
    by (auto simp: extend1_unfold Let_def)
qed

text \<open>
  What \<^verbatim>\<open>extend\<close> makes of a spec whose \<^verbatim>\<open>type\<close> is a descriptor: the stored options
  take \<^verbatim>\<open>type\<close> from the base, and \<^verbatim>\<open>required\<close> and \<^verbatim>\<open>default\<close> from the base where
  the base defines them; where the base has a validator, the validator of every
  descriptor built calls the base's and the spec's own on the same argument list, which
  is the value alone in getter form, and the arguments of the invocation followed by the
  value in method form.
\<close>

lemma inherit_fields:
  "vt_type (inherit base v opts) = vt_type base"
  "vt_required (inherit base v opts) =
     (case vt_required base of None \<Rightarrow> vt_required opts | Some r \<Rightarrow> Some r)"
  "vt_default (inherit base v opts) =
     (case vt_default base of
        None \<Rightarrow> vt_default opts
      | Some d \<Rightarrow> if d = JUndefined then vt_default opts else Some d)"
  "vt_validator (inherit base v opts) =
     (case vt_validator base of
        None \<Rightarrow> vt_validator opts
      | Some g \<Rightarrow> Some (conj_validator g v))"
  by (simp_all add: inherit_def Let_def split: option.splits)

lemma extend1_inherited_opts:
  assumes "wf_store s" "x_type p = Some (DescRef b)" "descs s b = Some base"
    "vt_name base \<noteq> None" "\<not> has ns (x_name p)"
  shows "fst (extend1 p ns s) = None"
    "desc_at (snd (snd (extend1 p ns s))) (nxt s)
       = inherit base (case x_validator p of None \<Rightarrow> stubTrue | Some f \<Rightarrow> f) (rest_opts p)"
    "registry (fst (snd (extend1 p ns s))) (x_name p) =
       Some (if (case x_getter p of None \<Rightarrow> False | Some g \<Rightarrow> g)
             then Getter (x_name p) False (nxt s)
             else Method (x_name p) False (nxt s)
                    (vt_validator (inherit base
                       (case x_validator p of None \<Rightarrow> stubTrue | Some f \<Rightarrow> f) (rest_opts p))))"
proof -
  have bn: "b \<noteq> nxt s" using assms(1,3) by (auto simp: wf_store_def)
  have v: "isVueTypeDef (snd (alloc_desc (rest_opts p) s)) (x_type p)"
    using assms(2,3,4) bn by (simp add: isVueTypeDef_def alloc_desc_simps)
  have d: "desc_at (snd (alloc_desc (rest_opts p) s)) b = base"
    using assms(3) bn by (simp add: desc_at_def alloc_desc_simps)
  have o: "desc_at (inherit_from (x_type p) f (nxt s) (snd (alloc_desc (rest_opts p) s))) (nxt s)
           = inherit base f (rest_opts p)" for f
    using assms(2) d by (simp add: inherit_from_def desc_at_def update_desc_simps alloc_desc_simps)
  show "fst (extend1 p ns s) = None"
    using assms(5) by (simp add: extend1_unfold Let_def)
  show "desc_at (snd (snd (extend1 p ns s))) (nxt s)
       = inherit base (case x_validator p of None \<Rightarrow> stubTrue | Some f \<Rightarrow> f) (rest_opts p)"
    using assms(5) v o by (simp add: extend1_unfold Let_def)
  show "registry (fst (snd (extend1 p ns s))) (x_name p) =
       Some (if (case x_getter p of None \<Rightarrow> False | Some g \<Rightarrow> g)
             then Getter (x_name p) False (nxt s)
             else Method (x_name p) False (nxt s)
                    (vt_validator (inherit base
                       (case x_validator p of None \<Rightarrow> stubTrue | Some f \<Rightarrow> f) (rest_opts p))))"
    using assms(5) v o by (simp add: extend1_unfold Let_def)
qed

lemma inherited_validator:
  assumes "wf_store s" "x_type p = Some (DescRef b)" "descs s b = Some base"
    "vt_name base \<noteq> None" "\<not> has ns (x_name p)" "vt_validator base = Some g"
    "registry (fst (snd (extend1 p ns s))) (x_name p) = Some e"
  shows "vt_validator (desc_at (snd (use_entry e args (snd (snd (extend1 p ns s)))))
                               (fst (use_entry e args (snd (snd (extend1 p ns s))))))
         = Some (\<lambda>rest.
             conj_validator g (case x_validator p of None \<Rightarrow> stubTrue | Some f \<Rightarrow> f)
               ((if (case x_getter p of None \<Rightarrow> False | Some g \<Rightarrow> g) then [] else args) @ rest))"
proof -
  note x = extend1_inherited_opts [OF assms(1-5)]
  have n: "nxt (snd (snd (extend1 p ns s))) = Suc (nxt s)"
    using extend1_frame(1) [of p ns s "fst (extend1 p ns s)" "fst (snd (extend1 p ns s))"
            "snd (snd (extend1 p ns s))"] by simp
  from x(3) assms(7) have e: "e = (if (case x_getter p of None \<Rightarrow> False | Some g \<Rightarrow> g)
             then Getter (x_name p) False (nxt s)
             else Method (x_name p) False (nxt s)
                    (vt_validator (inherit base
                       (case x_validator p of None \<Rightarrow> stubTrue | Some f \<Rightarrow> f) (rest_opts p))))"
    by simp
  show ?thesis
    by (simp add: use_entry_result desc_at_def [of _ "Suc (nxt s)"] n e x(2) inherit_fields assms(6)
          assign_copy_def)
qed

subsection \<open>Getters, setter and writes\<close>

lemma native_result:
  "fst (native k s) = nxt s"
  "descs (snd (native k s)) = (descs s)(nxt s \<mapsto> native_fields k)"
  "objs (snd (native k s)) = objs s"
  "nxt (snd (native k s)) = Suc (nxt s)"
  "logs (snd (native k s)) = logs s"
  by (simp_all add: native_def alloc_desc_def toType_def toValidableType_def update_desc_def
        native_fields_def kind_options_def)

lemma def_result:
  assumes "descs s a = Some d"
  shows "fst (def a v s) = a"
    "descs (snd (def a v s)) = (descs s)(a \<mapsto> def_fields d v)"
    "objs (snd (def a v s)) = objs s"
    "nxt (snd (def a v s)) = nxt s"
  using assms
  by (auto simp: def_unfold def_fields_def update_desc_def warn_def)

lemma with_default_result:
  "fst (with_default k key ns s) = nxt s"
  "descs (snd (with_default k key ns s)) =
     (descs s)(nxt s \<mapsto> def_fields (native_fields k) (get_prop (obj_at s (defaults ns)) key))"
  "objs (snd (with_default k key ns s)) = objs s"
  "nxt (snd (with_default k key ns s)) = Suc (nxt s)"
proof -
  have d: "descs (snd (native k s)) (nxt s) = Some (native_fields k)"
    by (simp add: native_result)
  have o: "obj_at (snd (native k s)) = obj_at s"
    by (rule ext) (simp add: obj_at_def native_result)
  note r = def_result [OF d]
  show "fst (with_default k key ns s) = nxt s"
    by (simp add: with_default_def split_beta r native_result)
  show "descs (snd (with_default k key ns s)) =
     (descs s)(nxt s \<mapsto> def_fields (native_fields k) (get_prop (obj_at s (defaults ns)) key))"
    by (simp add: with_default_def split_beta r native_result o)
  show "objs (snd (with_default k key ns s)) = objs s"
    by (simp add: with_default_def split_beta r native_result)
  show "nxt (snd (with_default k key ns s)) = Suc (nxt s)"
    by (simp add: with_default_def split_beta r native_result)
qed

lemma VueTypes_get_result:
  "fst (VueTypes_get k ns s) = nxt s"
  "descs (snd (VueTypes_get k ns s)) =
     (descs s)(nxt s \<mapsto> getter_fields k (obj_at s (defaults ns)))"
  "objs (snd (VueTypes_get k ns s)) = objs s"
  "nxt (snd (VueTypes_get k ns s)) = Suc (nxt s)"
  by (cases k; simp add: with_default_result native_result getter_fields_def)+

lemma got_eq: "got k ns s = getter_fields k (obj_at s (defaults ns))"
  by (simp add: got_def split_beta VueTypes_get_result desc_at_def)

lemma set_unfold:
  "set_sensibleDefaults v ns s =
     (ns\<lparr>defaults := nxt s\<rparr>,
      s\<lparr>objs := (objs s)(nxt s \<mapsto> assigned v ns s), nxt := Suc (nxt s)\<rparr>)"
  by (induction v ns s rule: set_sensibleDefaults.induct) (simp_all add: alloc_obj_def fun_upd_def)

lemma set_result:
  "defaults (fst (set_sensibleDefaults v ns s)) = nxt s"
  "defs (fst (set_sensibleDefaults v ns s)) = defs ns"
  "registry (fst (set_sensibleDefaults v ns s)) = registry ns"
  "a \<noteq> nxt s \<Longrightarrow> objs (snd (set_sensibleDefaults v ns s)) a = objs s a"
  "dom (objs (snd (set_sensibleDefaults v ns s))) = insert (nxt s) (dom (objs s))"
  "descs (snd (set_sensibleDefaults v ns s)) = descs s"
  "nxt (snd (set_sensibleDefaults v ns s)) = Suc (nxt s)"
  by (simp_all add: set_unfold)

lemma write_obj_simps:
  "a \<noteq> l \<Longrightarrow> objs (write_obj a k v s) l = objs s l"
  "dom (objs (write_obj a k v s)) = dom (objs s)"
  "descs (write_obj a k v s) = descs s"
  "nxt (write_obj a k v s) = nxt s"
  by (auto simp: write_obj_def split: option.splits)

lemma act_step:
  assumes "wf_store s" "l \<in> dom (objs s)" "defaults M \<noteq> l" "foreign l x"
  shows "wf_store (snd (act x (M, s)))"
    "objs (snd (act x (M, s))) l = objs s l"
    "defaults (fst (act x (M, s))) \<noteq> l"
    "defs (fst (act x (M, s))) = defs M"
proof -
  have lt: "l < nxt s" using assms(1,2) by (auto simp: wf_store_def)
  show "wf_store (snd (act x (M, s)))"
    using assms(1)
    by (cases x) (auto simp: wf_store_def set_result write_obj_simps get_sensibleDefaults_def
          less_Suc_eq)
  show "objs (snd (act x (M, s))) l = objs s l"
    using assms(3,4) lt
    by (cases x) (simp_all add: set_result write_obj_simps get_sensibleDefaults_def)
  show "defaults (fst (act x (M, s))) \<noteq> l"
    using assms(3) lt by (cases x) (simp_all add: set_result)
  show "defs (fst (act x (M, s))) = defs M"
    by (cases x) (simp_all add: set_result)
qed

lemma act_frame:
  "wf_store s \<Longrightarrow> l \<in> dom (objs s) \<Longrightarrow> defaults M \<noteq> l \<Longrightarrow> list_all (foreign l) acts \<Longrightarrow>
   wf_store (snd (fold act acts (M, s)))
   \<and> objs (snd (fold act acts (M, s))) l = objs s l
   \<and> defaults (fst (fold act acts (M, s))) \<noteq> l
   \<and> defs (fst (fold act acts (M, s))) = defs M"
proof (induction acts arbitrary: M s)
  case Nil
  then show ?case by simp
next
  case (Cons x acts)
  from Cons.prems have f: "foreign l x" and r: "list_all (foreign l) acts" by simp_all
  note st = act_step [OF Cons.prems(1,2,3) f]
  have l': "l \<in> dom (objs (snd (act x (M, s))))" using st(2) Cons.prems(2) by (auto simp: dom_def)
  from Cons.IH [of "snd (act x (M, s))" "fst (act x (M, s))", OF st(1) l' st(3) r] st
  show ?case by simp
qed

lemma createTypes_result:
  assumes "wf_store s" "set_option arg \<subseteq> dom (objs s)"
  shows "wf_store (snd (createTypes td arg s))"
    "defaults (fst (createTypes td arg s)) \<in> dom (objs (snd (createTypes td arg s)))"
    "defs (fst (createTypes td arg s)) \<in> dom (objs (snd (createTypes td arg s)))"
    "defaults (fst (createTypes td arg s)) \<notin> dom (objs s)"
    "defaults (fst (createTypes td arg s)) \<noteq> defs (fst (createTypes td arg s))"
    "obj_at (snd (createTypes td arg s)) (defaults (fst (createTypes td arg s)))
       = (case arg of None \<Rightarrow> td | Some a \<Rightarrow> obj_at s a)"
    "obj_at (snd (createTypes td arg s)) (defs (fst (createTypes td arg s)))
       = (case arg of None \<Rightarrow> td | Some a \<Rightarrow> obj_at s a)"
    "dom (objs s) \<subseteq> dom (objs (snd (createTypes td arg s)))"
    "\<forall>a \<in> dom (objs s). objs (snd (createTypes td arg s)) a = objs s a"
    "registry (fst (createTypes td arg s)) = Map.empty"
  using assms
  by (cases arg; auto simp: createTypes_def alloc_obj_def wf_store_def obj_at_def Let_def
        less_Suc_eq)+

text \<open>
  Assigning \<^verbatim>\<open>true\<close> reads the caller's configuration object when the assignment runs:
  a property the caller has written to that object since \<^verbatim>\<open>createTypes\<close> is in the new
  record.
\<close>

lemma assign_true_after_config_write:
  "objs s (defs ns) = Some c \<Longrightarrow>
   obj_at (snd (set_sensibleDefaults (SBool True) ns (write_obj (defs ns) k v s)))
          (get_sensibleDefaults
             (fst (set_sensibleDefaults (SBool True) ns (write_obj (defs ns) k v s))))
     = c(k \<mapsto> v)"
  by (simp add: set_unfold write_obj_def obj_at_def get_sensibleDefaults_def)



lemma got_no_default: "get_prop c (kind_name k) = JUndefined \<Longrightarrow> vt_default (getter_fields k c) = None"
  by (simp add: getter_fields_def def_fields_def native_fields_def)

subsection \<open>The other concrete runs\<close>

lemma cfg_store_simps:
  "wf_store cfg_store" "set_option (Some 0) \<subseteq> dom (objs cfg_store)"
  "createTypes sensible (Some 0) cfg_store = (ns0, s0)"
  by (simp_all add: cfg_store_def wf_store_def createTypes_def alloc_obj_def obj_at_def ns0_def
        s0_def)

lemma s0_simps:
  "wf_store s0" "set_option (Some 0) \<subseteq> dom (objs s0)"
  "createTypes sensible (Some 0) s0 = (ns_b, s_b)"
  by (simp_all add: s0_def wf_store_def createTypes_def alloc_obj_def obj_at_def ns_b_def s_b_def)



lemma sensible_string: "get_prop sensible ''string'' = JStr []"
  by (simp add: sensible_def get_prop_def)

lemma getter_string:
  "vt_default (getter_fields KString c) =
     (if isString (get_prop c ''string'') then Some (get_prop c ''string'') else None)"
  by (cases "get_prop c ''string''")
     (simp_all add: getter_fields_def def_fields_def native_fields_def passes_def def_probe_def
        def_stored_def factory_kind_def first_arg_def)

lemma obj_at_alloc: "obj_at (s\<lparr>objs := (objs s)(a \<mapsto> c), nxt := n\<rparr>) a = c"
  by (simp add: obj_at_def)

subsection \<open>What \<^verbatim>\<open>def\<close> accepts\<close>

lemma native_default: "vt_default (desc_at (snd (native k u)) (fst (native k u))) = None"
  by (simp add: native_result desc_at_def native_fields_def)

lemma def_stored_native:
  "def_stored (native_fields k) v =
     (if (k = KArray \<or> k = KObject) \<and> (isArray v \<or> isPlainObject v) then JFun v else v)"
  by (cases k) (simp_all add: def_stored_def factory_kind_def native_fields_def)

lemma frac_simps:
  "createTypes sensible (Some 0) frac_store = (ns_frac, s_frac)"
  "obj_at s_frac (defaults ns_frac) = frac_config"
  "get_prop frac_config ''integer'' = JNum (3 / 2)"
  by (simp_all add: createTypes_def alloc_obj_def obj_at_def frac_store_def ns_frac_def
        s_frac_def frac_config_def get_prop_def)

lemma y_run:
  "fold act [WriteAt 0 ''string'' (JStr ''y''), Assign (SBool True)] (ns0, s0)
     = (ns0\<lparr>defaults := 2\<rparr>,
        s0\<lparr>objs := [0 \<mapsto> sensible(''string'' \<mapsto> JStr ''y''), 1 \<mapsto> sensible,
                      2 \<mapsto> sensible(''string'' \<mapsto> JStr ''y'')],
           nxt := 3\<rparr>)"
  by (simp add: set_unfold write_obj_def obj_at_def s0_def ns0_simps fun_upd_twist)

subsection \<open>Well-formed stores\<close>

lemma update_desc_dom: "dom (descs (update_desc a f s)) = dom (descs s)"
  by (auto simp: update_desc_def split: option.splits)

lemma wf_update_desc: "wf_store s \<Longrightarrow> wf_store (update_desc a f s)"
  by (simp add: wf_store_def update_desc_dom update_desc_simps)

lemma wf_alloc_desc: "wf_store s \<Longrightarrow> wf_store (snd (alloc_desc d s))"
  by (auto simp: wf_store_def alloc_desc_def less_Suc_eq)

lemma wf_inherit_from: "wf_store s \<Longrightarrow> wf_store (inherit_from t v opts s)"
  by (simp add: inherit_from_def wf_update_desc split: option.splits ptype.splits)

lemma wf_warn: "wf_store s \<Longrightarrow> wf_store (warn m s)"
  by (simp add: wf_store_def warn_def)

lemma wf_chain: "wf_store s \<Longrightarrow> wf_store (chain a op s)"
  by (cases op)
     (auto simp: def_unfold isRequired_def validate_method_def wf_update_desc wf_warn
           split: option.splits)

lemma wf_fold_chain: "wf_store s \<Longrightarrow> wf_store (fold (chain a) ops s)"
  by (induction ops arbitrary: s) (simp_all add: wf_chain)

lemma wf_use_entry: "wf_store s \<Longrightarrow> wf_store (snd (use_entry e args s))"
  by (auto simp: wf_store_def use_entry_result less_Suc_eq)

lemma extend1_installs:
  assumes "wf_store u" "extend1 p ns u = (None, ns', u')"
  shows "wf_store u' \<and> (\<exists>e. registry ns' (x_name p) = Some e \<and> entry_opts e < nxt u'
           \<and> descs u' (entry_opts e) \<noteq> None \<and> entry_name e = x_name p
           \<and> (case e of Getter n v opts \<Rightarrow> True
               | Method n v opts f \<Rightarrow> f = vt_validator (desc_at u' opts)))"
proof -
  have nh: "\<not> has ns (x_name p)" using assms(2) by (auto simp: extend1_unfold split: if_splits)
  have w1: "wf_store (snd (alloc_desc (rest_opts p) u))" using assms(1) by (rule wf_alloc_desc)
  from assms(2) nh have u': "wf_store u'" "nxt u' = Suc (nxt u)"
    using w1 wf_inherit_from [OF w1]
    by (auto simp: extend1_unfold Let_def alloc_desc_simps inherit_from_simps split: if_splits)
  from assms(2) nh have "\<exists>e. registry ns' (x_name p) = Some e \<and> entry_opts e = nxt u
      \<and> descs u' (entry_opts e) \<noteq> None \<and> entry_name e = x_name p
      \<and> (case e of Getter n v opts \<Rightarrow> True
          | Method n v opts f \<Rightarrow> f = vt_validator (desc_at u' opts))"
    by (auto simp: extend1_unfold Let_def alloc_desc_simps inherit_from_def update_desc_simps
             split: if_splits option.splits ptype.splits)
  with u' show ?thesis by auto
qed

section \<open>Inheriting from a descriptor\<close>

text \<open>
  C1, at \<^verbatim>\<open>createTypes()\<close>, then
  \<^verbatim>\<open>extend({ name: 'maxInt', validate: true, type: integer(), validator: (max, v) => v <= max })\<close>,
  then \<^verbatim>\<open>maxInt(10)\<close>: the validator of the descriptor accepts 3/2, which the spec's own
  validator accepts for the bound 10 and the base descriptor rejects. The base validator
  is called on the bound argument 10 and not on the value.
\<close>

theorem inherited_method_checks_argument:
  "createTypes sensible None empty_store = (ns0, s0)
   \<and> native KInteger s0 = (2, s_int)
   \<and> (case extend (One maxInt) ns0 s_int of
      (err, ns1, s1) \<Rightarrow>
        (case registry ns1 ''maxInt'' of
           None \<Rightarrow> False
         | Some e \<Rightarrow>
             (case use_entry e [JNum 10] s1 of
                (a, s2) \<Rightarrow>
                  (case vt_validator (desc_at s2 a) of
                     None \<Rightarrow> False
                   | Some f \<Rightarrow>
                       err = None \<and> fst (f [JNum (3 / 2)])
                       \<and> \<not> passes (desc_at s_int 2) (JNum (3 / 2))
                       \<and> fst (le_max [JNum 10, JNum (3 / 2)])))))"
  by (simp add: extend_maxInt ns_max_simps createTypes_sensible native_integer)
     (simp add: maxInt_entry_def entry_value_def alloc_desc_def toType_def update_desc_def
        desc_at_def assign_copy_def maxInt_opts_def s_max_def s_int_def integer_2_def passes_def
        conj_validator_def first_arg_def le_max_def three_halves del: isInteger.simps)

section \<open>No silent override\<close>

text \<open>
  C2. When the name of a spec is already a property of the namespace, \<^verbatim>\<open>extend\<close> throws
  the TypeError that names it and leaves the namespace as it was; an array of specs
  that contains such a spec throws as well. Whatever \<^verbatim>\<open>extend\<close> is given, and whether
  it throws or not, every name that existed before keeps its entry, and every object
  that existed before, the options of the installed validators among them, is untouched.
\<close>

theorem extend_never_overrides:
  "(has ns (x_name p) \<longrightarrow>
      fst (extend (One p) ns s)
        = Some (TypeError (''[VueTypes error]: Type '' @ [CHR 0x22] @ x_name p @ [CHR 0x22]
                           @ '' already defined''))
      \<and> fst (snd (extend (One p) ns s)) = ns)
   \<and> (p \<in> set ps \<and> has ns (x_name p) \<longrightarrow> fst (extend (Many ps) ns s) \<noteq> None)
   \<and> (\<forall>n. has ns n \<longrightarrow> registry (fst (snd (extend arg ns s))) n = registry ns n)
   \<and> (\<forall>a < nxt s. descs (snd (snd (extend arg ns s))) a = descs s a)"
proof -
  have 1: "has ns (x_name p) \<longrightarrow>
      fst (extend (One p) ns s)
        = Some (TypeError (''[VueTypes error]: Type '' @ [CHR 0x22] @ x_name p @ [CHR 0x22]
                           @ '' already defined''))
      \<and> fst (snd (extend (One p) ns s)) = ns"
    by (simp add: extend1_collision already_defined_def)
  have 2: "p \<in> set ps \<and> has ns (x_name p) \<longrightarrow> fst (extend (Many ps) ns s) \<noteq> None"
    using extend_all_collision [of p ps ns s] by simp
  have 3: "(\<forall>n. has ns n \<longrightarrow> registry (fst (snd (extend arg ns s))) n = registry ns n)
         \<and> (\<forall>a < nxt s. descs (snd (snd (extend arg ns s))) a = descs s a)"
  proof (cases arg)
    case (One q)
    obtain e1 ns1 s1 where st: "extend1 q ns s = (e1, ns1, s1)" by (cases "extend1 q ns s")
    from extend1_frame [OF st] One st show ?thesis by auto
  next
    case (Many qs)
    obtain e1 ns1 s1 where st: "extend_all qs ns s = (e1, ns1, s1)" by (cases "extend_all qs ns s")
    from extend_all_frame [OF st] Many st show ?thesis by auto
  qed
  from 1 2 3 show ?thesis by blast
qed

theorem extend_never_overrides_witness:
  "has ns_max (x_name maxInt)
   \<and> fst (extend (One maxInt) ns_max s_max)
       = Some (TypeError (''[VueTypes error]: Type '' @ [CHR 0x22] @ ''maxInt'' @ [CHR 0x22]
                          @ '' already defined''))
   \<and> fst (snd (extend (One maxInt) ns_max s_max)) = ns_max
   \<and> maxInt \<in> set [other, maxInt]
   \<and> fst (extend (Many [other, maxInt]) ns_max s_max) \<noteq> None
   \<and> registry (fst (snd (extend (Many [other, maxInt]) ns_max s_max))) ''maxInt''
       = Some maxInt_entry
   \<and> descs (snd (snd (extend (Many [other, maxInt]) ns_max s_max))) 3 = Some maxInt_opts"
proof -
  note t = extend_never_overrides [of ns_max maxInt s_max "[other, maxInt]" "Many [other, maxInt]"]
  have n: "x_name maxInt = ''maxInt''" by (simp add: maxInt_def)
  have m: "maxInt \<in> set [other, maxInt]" by simp
  have l: "(3::nat) < nxt s_max" by (simp add: s_max_simps)
  from t ns_max_simps(1) have 1:
    "fst (extend (One maxInt) ns_max s_max)
       = Some (TypeError (''[VueTypes error]: Type '' @ [CHR 0x22] @ x_name maxInt @ [CHR 0x22]
                          @ '' already defined''))"
    "fst (snd (extend (One maxInt) ns_max s_max)) = ns_max"
    by blast+
  from t ns_max_simps(1) m have 2: "fst (extend (Many [other, maxInt]) ns_max s_max) \<noteq> None"
    by blast
  from t ns_max_simps(1) have 3:
    "registry (fst (snd (extend (Many [other, maxInt]) ns_max s_max))) (x_name maxInt)
       = registry ns_max (x_name maxInt)"
    by blast
  from t l have 4:
    "descs (snd (snd (extend (Many [other, maxInt]) ns_max s_max))) 3 = descs s_max 3"
    by blast
  from 1 2 3 4 m ns_max_simps(1,2) s_max_simps(2) n show ?thesis by simp
qed

section \<open>The result of \<^verbatim>\<open>validateType\<close>\<close>

text \<open>
  C3. Whatever the spec, and whatever diagnostics its validator hands to \<^verbatim>\<open>warn\<close> while
  it runs: in silent mode \<^verbatim>\<open>validateType\<close> returns \<^verbatim>\<open>true\<close> when the check succeeds and a
  diagnostic message, never \<^verbatim>\<open>false\<close>, when it fails, and the store, its log and its
  flag included, is as before the call. The message names the descriptor (when it has a
  name), the expected type and the value received. In non-silent mode it returns
  \<^verbatim>\<open>true\<close> on success with the store as before, and on failure it returns \<^verbatim>\<open>false\<close> and
  the log has grown by exactly one diagnostic, that same message; this when the sink is
  enabled at the call, as it is outside any probe (a call made by a validator that is
  itself being probed finds the sink disabled, and writes nothing). Every call leaves
  the flag as it found it. \<^verbatim>\<open>utils.validate\<close> is \<^verbatim>\<open>validateType\<close> in silent mode.
\<close>

theorem validateType_result:
  "(passes (normalize_spec sp) v \<longrightarrow>
      validateType sp v True s = (RTrue, s) \<and> validateType sp v False s = (RTrue, s))
   \<and> (\<not> passes (normalize_spec sp) v \<longrightarrow>
      (\<exists>m. m = TypeMismatch (vt_name (normalize_spec sp)) (expected (normalize_spec sp)) v
          \<and> validateType sp v True s = (RMsg m, s)
          \<and> validateType sp v False s
              = (RFalse, if silenced s then s else s\<lparr>logs := logs s @ [m]\<rparr>)))
   \<and> silenced (snd (validateType sp v silent s)) = silenced s
   \<and> utils_validate v sp s = validateType sp v True s"
proof -
  have 1: "passes (normalize_spec sp) v \<longrightarrow>
      validateType sp v True s = (RTrue, s) \<and> validateType sp v False s = (RTrue, s)"
    by (simp add: validateType_unfold)
  have 2: "\<not> passes (normalize_spec sp) v \<longrightarrow>
      (\<exists>m. m = TypeMismatch (vt_name (normalize_spec sp)) (expected (normalize_spec sp)) v
          \<and> validateType sp v True s = (RMsg m, s)
          \<and> validateType sp v False s
              = (RFalse, if silenced s then s else s\<lparr>logs := logs s @ [m]\<rparr>))"
    by (simp add: validateType_unfold warn_def)
  have 3: "silenced (snd (validateType sp v silent s)) = silenced s"
    by (simp add: validateType_unfold warn_simps)
  have 4: "utils_validate v sp s = validateType sp v True s"
    by (simp add: utils_validate_def)
  from 1 2 3 4 show ?thesis by blast
qed

theorem validateType_result_witness:
  "\<not> silenced empty_store
   \<and> call_validator (custom_validator minLength ''theProp is not a string or is too short'')
         [JStr ''my''] empty_store
       = (False, empty_store\<lparr>logs := [Message ''theProp is not a string or is too short'']\<rparr>)
   \<and> \<not> passes (normalize_spec (SpecObj theProp)) (JStr ''my'')
   \<and> validateType (SpecObj theProp) (JStr ''my'') True empty_store
       = (RMsg (TypeMismatch (Some ''custom'') [] (JStr ''my'')), empty_store)
   \<and> validateType (SpecObj theProp) (JStr ''my'') False empty_store
       = (RFalse, empty_store\<lparr>logs := [TypeMismatch (Some ''custom'') [] (JStr ''my'')]\<rparr>)
   \<and> \<not> passes (normalize_spec (SpecCtor CString)) (JNum 10)
   \<and> validateType (SpecCtor CString) (JNum 10) True empty_store
       = (RMsg (TypeMismatch None [''string''] (JNum 10)), empty_store)
   \<and> validateType (SpecCtor CString) (JNum 10) False empty_store
       = (RFalse, empty_store\<lparr>logs := [TypeMismatch None [''string''] (JNum 10)]\<rparr>)
   \<and> passes (normalize_spec (SpecCtor CNumber)) (JNum 10)
   \<and> validateType (SpecCtor CNumber) (JNum 10) True empty_store = (RTrue, empty_store)
   \<and> validateType (SpecCtor CNumber) (JNum 10) False empty_store = (RTrue, empty_store)
   \<and> utils_validate (JNum 10) (SpecCtor CNumber) empty_store = (RTrue, empty_store)"
proof -
  have e: "\<not> silenced empty_store" "logs empty_store = []" by (simp_all add: empty_store_def)
  have c: "call_validator (custom_validator minLength ''theProp is not a string or is too short'')
         [JStr ''my''] empty_store
       = (False, empty_store\<lparr>logs := [Message ''theProp is not a string or is too short'']\<rparr>)"
    by (simp add: call_validator_def custom_validator_def minLength_def first_arg_def warn_def e)
  have p1: "\<not> passes (normalize_spec (SpecObj theProp)) (JStr ''my'')"
    by (simp add: passes_def normalize_spec_def theProp_def custom_validator_def minLength_def
          first_arg_def)
  have p2: "\<not> passes (normalize_spec (SpecCtor CString)) (JNum 10)"
    by (simp add: passes_def normalize_spec_def)
  have p3: "passes (normalize_spec (SpecCtor CNumber)) (JNum 10)"
    by (simp add: passes_def normalize_spec_def)
  have m1: "TypeMismatch (vt_name (normalize_spec (SpecObj theProp)))
              (expected (normalize_spec (SpecObj theProp))) (JStr ''my'')
            = TypeMismatch (Some ''custom'') [] (JStr ''my'')"
    by (simp add: normalize_spec_def theProp_def expected_def)
  have m2: "TypeMismatch (vt_name (normalize_spec (SpecCtor CString)))
              (expected (normalize_spec (SpecCtor CString))) (JNum 10)
            = TypeMismatch None [''string''] (JNum 10)"
    by (simp add: normalize_spec_def expected_def)
  from validateType_result [of "SpecObj theProp" "JStr ''my''" empty_store] p1 e
  have 1: "validateType (SpecObj theProp) (JStr ''my'') True empty_store
       = (RMsg (TypeMismatch (Some ''custom'') [] (JStr ''my'')), empty_store)"
    "validateType (SpecObj theProp) (JStr ''my'') False empty_store
       = (RFalse, empty_store\<lparr>logs := [TypeMismatch (Some ''custom'') [] (JStr ''my'')]\<rparr>)"
    by (simp_all only: m1) simp_all
  from validateType_result [of "SpecCtor CString" "JNum 10" empty_store] p2 e
  have 2: "validateType (SpecCtor CString) (JNum 10) True empty_store
       = (RMsg (TypeMismatch None [''string''] (JNum 10)), empty_store)"
    "validateType (SpecCtor CString) (JNum 10) False empty_store
       = (RFalse, empty_store\<lparr>logs := [TypeMismatch None [''string''] (JNum 10)]\<rparr>)"
    by (simp_all only: m2) simp_all
  from validateType_result [of "SpecCtor CNumber" "JNum 10" empty_store] p3
  have 3: "validateType (SpecCtor CNumber) (JNum 10) True empty_store = (RTrue, empty_store)"
    "validateType (SpecCtor CNumber) (JNum 10) False empty_store = (RTrue, empty_store)"
    "utils_validate (JNum 10) (SpecCtor CNumber) empty_store = (RTrue, empty_store)"
    by simp_all
  from e(1) c p1 1 p2 2 p3 3 show ?thesis by blast
qed

section \<open>Independent defaults\<close>



section \<open>The convenience getters\<close>

text \<open>
  C5, as amended. A native factory returns a descriptor with no default. A convenience
  getter returns a new object. For \<open>any\<close> and \<open>symbol\<close> it is what the factory built. For
  the seven other kinds it is what the factory built with \<^verbatim>\<open>def\<close> applied to the value
  the defaults record holds for the kind at that moment: the default is that value when
  there is one and \<^verbatim>\<open>def\<close> accepts it (a bare array or object of the array and object
  kinds wrapped into a factory), and there is no default otherwise.
\<close>

theorem getter_applies_def_to_stored_value:
  "(\<forall>k u. vt_default (desc_at (snd (native k u)) (fst (native k u))) = None)
   \<and> (wf_store s \<longrightarrow> fst (VueTypes_get k ns s) \<notin> dom (descs s))
   \<and> got k ns s = desc_at (snd (VueTypes_get k ns s)) (fst (VueTypes_get k ns s))
   \<and> (k = KAny \<or> k = KSymbol \<longrightarrow> got k ns s = native_fields k)
   \<and> (k \<noteq> KAny \<and> k \<noteq> KSymbol \<longrightarrow>
        got k ns s = (native_fields k)\<lparr>vt_default :=
          (if get_prop (obj_at s (defaults ns)) (kind_name k) \<noteq> JUndefined
              \<and> def_ok (native_fields k) (get_prop (obj_at s (defaults ns)) (kind_name k)) s
           then Some (def_stored (native_fields k)
                        (get_prop (obj_at s (defaults ns)) (kind_name k)))
           else None)\<rparr>)
   \<and> def_stored (native_fields k) v =
        (if (k = KArray \<or> k = KObject) \<and> (isArray v \<or> isPlainObject v) then JFun v else v)"
proof -
  have 1: "wf_store s \<longrightarrow> fst (VueTypes_get k ns s) \<notin> dom (descs s)"
    by (auto simp: VueTypes_get_result wf_store_def)
  have 2: "got k ns s = desc_at (snd (VueTypes_get k ns s)) (fst (VueTypes_get k ns s))"
    by (simp add: got_def split_beta)
  have 3: "k = KAny \<or> k = KSymbol \<longrightarrow> got k ns s = native_fields k"
    by (simp add: got_eq getter_fields_def)
  have 4: "k \<noteq> KAny \<and> k \<noteq> KSymbol \<longrightarrow>
        got k ns s = (native_fields k)\<lparr>vt_default :=
          (if get_prop (obj_at s (defaults ns)) (kind_name k) \<noteq> JUndefined
              \<and> def_ok (native_fields k) (get_prop (obj_at s (defaults ns)) (kind_name k)) s
           then Some (def_stored (native_fields k)
                        (get_prop (obj_at s (defaults ns)) (kind_name k)))
           else None)\<rparr>"
    by (simp add: got_eq getter_fields_def def_fields_def def_ok_passes native_fields_def)
  from native_default 1 2 3 4 def_stored_native show ?thesis by blast
qed

text \<open>
  C5 as stated fails at \<^verbatim>\<open>createTypes({ integer: 1.5 })\<close>: the record holds 3/2 for the
  integer kind, and the \<^verbatim>\<open>integer\<close> getter returns a descriptor with no default.
\<close>

theorem getter_drops_invalid_default:
  "createTypes sensible (Some 0) frac_store = (ns_frac, s_frac)
   \<and> get_prop (obj_at s_frac (defaults ns_frac)) (kind_name KInteger) = JNum (3 / 2)
   \<and> vt_default (got KInteger ns_frac s_frac) = None
   \<and> vt_default (got KInteger ns_frac s_frac)
       \<noteq> Some (get_prop (obj_at s_frac (defaults ns_frac)) (kind_name KInteger))"
  by (simp add: frac_simps got_eq getter_fields_def def_fields_def native_fields_def passes_def
        def_probe_def factory_kind_def first_arg_def three_halves del: isInteger.simps)

theorem getter_applies_def_to_stored_value_witness:
  "wf_store s0 \<and> fst (VueTypes_get KString ns0 s0) \<notin> dom (descs s0)
   \<and> get_prop (obj_at s0 (defaults ns0)) (kind_name KString) = JStr []
   \<and> def_ok (native_fields KString) (JStr []) s0
   \<and> vt_default (got KString ns0 s0) = Some (JStr [])
   \<and> vt_default (got KSymbol ns0 s0) = None"
proof -
  note t = getter_applies_def_to_stored_value [of s0 KString ns0 "JStr []"]
  note t2 = getter_applies_def_to_stored_value [of s0 KSymbol ns0 "JStr []"]
  have v: "get_prop (obj_at s0 (defaults ns0)) (kind_name KString) = JStr []"
    by (simp add: obj_at_def s0_def ns0_simps sensible_string)
  have ok: "def_ok (native_fields KString) (JStr []) s0"
    by (simp add: def_ok_passes passes_def def_probe_def native_fields_def first_arg_def)
  from t s0_simps(1) have 1: "fst (VueTypes_get KString ns0 s0) \<notin> dom (descs s0)" by blast
  from t have "got KString ns0 s0 = (native_fields KString)\<lparr>vt_default :=
          (if get_prop (obj_at s0 (defaults ns0)) (kind_name KString) \<noteq> JUndefined
              \<and> def_ok (native_fields KString) (get_prop (obj_at s0 (defaults ns0)) (kind_name KString)) s0
           then Some (def_stored (native_fields KString)
                        (get_prop (obj_at s0 (defaults ns0)) (kind_name KString)))
           else None)\<rparr>" by blast
  then have 2: "vt_default (got KString ns0 s0) = Some (JStr [])"
    using v ok by (simp add: def_stored_native)
  from t2 have "got KSymbol ns0 s0 = native_fields KSymbol" by blast
  then have 3: "vt_default (got KSymbol ns0 s0) = None" by (simp add: native_fields_def)
  from s0_simps(1) 1 v ok 2 3 show ?thesis by blast
qed

section \<open>No \<^verbatim>\<open>validate\<close> on inherited descriptors\<close>

text \<open>
  C6. In a well-formed store, for a spec whose \<^verbatim>\<open>type\<close> is a VueTypes descriptor and
  whose name is free, whatever its \<^verbatim>\<open>validate\<close> flag says: \<^verbatim>\<open>extend\<close> succeeds and
  installs an entry whose \<^verbatim>\<open>validate\<close> flag is false, so that every descriptor it ever
  builds comes from \<^verbatim>\<open>toType\<close>: it has no \<^verbatim>\<open>validate\<close> method, and an attempt to call
  one is an error that installs nothing.
\<close>

theorem inherited_never_validable:
  assumes "wf_store s" "isVueTypeDef s (x_type p)" "\<not> has ns (x_name p)"
  shows "\<exists>e. fst (extend (One p) ns s) = None
           \<and> registry (fst (snd (extend (One p) ns s))) (x_name p) = Some e
           \<and> \<not> entry_validate e
           \<and> (\<forall>args t fn.
                \<not> vt_validable (desc_at (snd (use_entry e args t)) (fst (use_entry e args t)))
                \<and> validate_method (fst (use_entry e args t)) fn (snd (use_entry e args t))
                    = Inl (TypeError ''validate is not a function''))"
proof -
  from extend1_inherited [OF assms] obtain e s' where
    e: "extend1 p ns s = (None, ns\<lparr>registry := (registry ns)(x_name p \<mapsto> e)\<rparr>, s')"
       "\<not> entry_validate e"
    by blast
  have b: "\<not> vt_validable (built e args d)" for args d
    using e(2) by (cases e) simp_all
  have u: "\<not> vt_validable (desc_at (snd (use_entry e args t)) (fst (use_entry e args t)))
       \<and> validate_method (fst (use_entry e args t)) fn (snd (use_entry e args t))
           = Inl (TypeError ''validate is not a function'')" for args t fn
    using b by (simp add: use_entry_result desc_at_def validate_method_def)
  from e u show ?thesis by auto
qed

theorem inherited_never_validable_witness:
  "wf_store s_int \<and> isVueTypeDef s_int (x_type maxInt) \<and> x_validate maxInt = Some True
   \<and> \<not> has ns0 (x_name maxInt)
   \<and> fst (extend (One maxInt) ns0 s_int) = None
   \<and> registry (fst (snd (extend (One maxInt) ns0 s_int))) (x_name maxInt) = Some maxInt_entry
   \<and> \<not> entry_validate maxInt_entry
   \<and> \<not> vt_validable (desc_at (snd (use_entry maxInt_entry [JNum 10] s_max))
                                 (fst (use_entry maxInt_entry [JNum 10] s_max)))
   \<and> validate_method (fst (use_entry maxInt_entry [JNum 10] s_max)) stubTrue
         (snd (use_entry maxInt_entry [JNum 10] s_max))
       = Inl (TypeError ''validate is not a function'')"
proof -
  have h: "\<not> has ns0 (x_name maxInt)" using not_has_maxInt by (simp add: maxInt_def)
  have v: "x_validate maxInt = Some True" by (simp add: maxInt_def)
  have r: "registry (fst (snd (extend (One maxInt) ns0 s_int))) (x_name maxInt) = Some maxInt_entry"
    by (simp add: extend_maxInt ns_max_simps maxInt_name)
  from inherited_never_validable [OF wf_s_int isVueTypeDef_maxInt h] obtain e where
    e: "fst (extend (One maxInt) ns0 s_int) = None"
       "registry (fst (snd (extend (One maxInt) ns0 s_int))) (x_name maxInt) = Some e"
       "\<not> entry_validate e"
       "\<And>args t fn.
          \<not> vt_validable (desc_at (snd (use_entry e args t)) (fst (use_entry e args t)))
          \<and> validate_method (fst (use_entry e args t)) fn (snd (use_entry e args t))
              = Inl (TypeError ''validate is not a function'')"
    by blast
  from e(2) r have "e = maxInt_entry" by simp
  with e(1,3) e(4) [of "[JNum 10]" s_max stubTrue] r wf_s_int isVueTypeDef_maxInt h v
  show ?thesis by blast
qed

section \<open>\<^verbatim>\<open>def(undefined)\<close>\<close>

text \<open>
  C7. Whatever the descriptor and whatever its \<^verbatim>\<open>default\<close> (a value, a factory, or
  none), \<^verbatim>\<open>def(undefined)\<close> removes the \<^verbatim>\<open>default\<close> attribute and changes nothing else:
  nothing is validated and nothing is logged, and the same descriptor is returned.
\<close>

theorem def_undefined_deletes_default:
  assumes "descs s a = Some d"
  shows "def a JUndefined s = (a, s\<lparr>descs := (descs s)(a \<mapsto> d\<lparr>vt_default := None\<rparr>)\<rparr>)"
  using assms by (simp add: def_unfold update_desc_def)

theorem def_undefined_deletes_default_witness:
  "vt_default (desc_at string_x 0) = Some (JStr ''x'')
   \<and> vt_default (desc_at (snd (def 0 JUndefined string_x)) 0) = None
   \<and> logs (snd (def 0 JUndefined string_x)) = logs string_x"
  using def_undefined_deletes_default [OF string_x_0] string_x_0
  by (simp add: desc_at_def)

section \<open>\<^verbatim>\<open>isRequired\<close>\<close>

text \<open>
  C8. The descriptor that a native factory returns has no \<^verbatim>\<open>required\<close> field. On any
  descriptor, \<^verbatim>\<open>isRequired\<close> sets \<^verbatim>\<open>required = true\<close>, changes nothing else and returns
  the same descriptor; a second access changes nothing more; and after it no sequence of
  \<^verbatim>\<open>def\<close>, \<^verbatim>\<open>isRequired\<close> and \<^verbatim>\<open>validate\<close> calls on the descriptor makes \<^verbatim>\<open>required\<close>
  anything but \<^verbatim>\<open>true\<close>.
\<close>

theorem isRequired_only_sets_true:
  "(\<forall>k u. descs (snd (native k u)) (fst (native k u)) \<noteq> None
           \<and> vt_required (desc_at (snd (native k u)) (fst (native k u))) = None)
   \<and> (descs s a = Some d \<longrightarrow>
        isRequired a s = (a, s\<lparr>descs := (descs s)(a \<mapsto> d\<lparr>vt_required := Some True\<rparr>)\<rparr>)
        \<and> isRequired a (snd (isRequired a s)) = isRequired a s
        \<and> (\<forall>ops. vt_required (desc_at (fold (chain a) ops (snd (isRequired a s))) a)
                  = Some True))"
proof -
  have nat: "descs (snd (native k u)) (fst (native k u)) \<noteq> None
             \<and> vt_required (desc_at (snd (native k u)) (fst (native k u))) = None"
    for k u
    using native_fresh [of k u "fst (native k u)" "snd (native k u)"]
    by (auto simp: desc_at_def kind_options_def)
  have chn: "isRequired a s = (a, s\<lparr>descs := (descs s)(a \<mapsto> d\<lparr>vt_required := Some True\<rparr>)\<rparr>)
        \<and> isRequired a (snd (isRequired a s)) = isRequired a s
        \<and> (\<forall>ops. vt_required (desc_at (fold (chain a) ops (snd (isRequired a s))) a)
                  = Some True)"
    if d: "descs s a = Some d"
  proof -
    have r: "vt_required (desc_at (snd (isRequired a s)) a) = Some True"
      using d by (simp add: isRequired_def desc_at_update)
    show ?thesis
      using d fold_chain_keeps_required [OF r]
      by (simp add: isRequired_def update_desc_def)
  qed
  show ?thesis using nat chn by blast
qed

theorem isRequired_only_sets_true_witness:
  "descs number_0 0 \<noteq> None
   \<and> vt_required (desc_at number_0 0) = None
   \<and> fst (isRequired 0 number_0) = 0
   \<and> vt_required (desc_at (snd (isRequired 0 number_0)) 0) = Some True
   \<and> isRequired 0 (snd (isRequired 0 number_0)) = isRequired 0 number_0
   \<and> vt_required (desc_at (fold (chain 0)
         [OpDef (JNum 10), OpValidate stubTrue, OpDef JUndefined, OpIsRequired]
         (snd (isRequired 0 number_0))) 0) = Some True"
proof -
  note h = number_0_0
  note t = isRequired_only_sets_true [of number_0 0
      "\<lparr>vt_name = Some ''number'', vt_type = Some (Native CNumber), vt_required = None,
        vt_default = None, vt_validator = kind_validator KNumber, vt_validable = True\<rparr>"]
  note t' = t [THEN conjunct2, rule_format, OF h]
  note a = t' [THEN conjunct1]
  note b = t' [THEN conjunct2, THEN conjunct1]
  note c = t' [THEN conjunct2, THEN conjunct2, rule_format,
      of "[OpDef (JNum 10), OpValidate stubTrue, OpDef JUndefined, OpIsRequired]"]
  have 1: "descs number_0 0 \<noteq> None" using h by simp
  have 2: "vt_required (desc_at number_0 0) = None" using h by (simp add: desc_at_def)
  have 3: "fst (isRequired 0 number_0) = 0" by (simp add: a)
  have 4: "vt_required (desc_at (snd (isRequired 0 number_0)) 0) = Some True"
    by (simp add: a desc_at_def)
  from 1 2 3 4 b c show ?thesis by blast
qed

section \<open>Fresh descriptors\<close>

text \<open>
  C9. In a well-formed store a successful \<^verbatim>\<open>extend\<close> leaves a well-formed store and
  installs, under the name of the spec, an entry whose stored options exist; in method
  form the entry keeps the validator those options have. For such an entry, in getter or in method form: an access or invocation returns a new object,
  which is not the stored options; its \<^verbatim>\<open>type\<close>, \<^verbatim>\<open>required\<close> and \<^verbatim>\<open>default\<close> are those
  the stored options have at that moment, its validator is theirs as well (in method
  form, when the options had a validator as \<^verbatim>\<open>extend\<close> ran, that validator with the
  arguments of the invocation bound in front), and its name and \<^verbatim>\<open>validate\<close> method are
  as the entry says; building it leaves the stored options as they were. Whatever
  sequence of \<^verbatim>\<open>isRequired\<close>, \<^verbatim>\<open>def\<close> and \<^verbatim>\<open>validate\<close> calls is then applied to the
  returned descriptor, the stored options are unchanged (and the store is still well
  formed, so that all this holds again); and every later access or invocation returns yet
  another object, with the fields it would have had if the first descriptor had never
  been built.
\<close>

theorem use_entry_fresh_copy:
  "(wf_store u \<and> fst (extend (One p) ns u) = None \<longrightarrow>
      wf_store (snd (snd (extend (One p) ns u)))
      \<and> (\<exists>e. registry (fst (snd (extend (One p) ns u))) (x_name p) = Some e
             \<and> entry_name e = x_name p
             \<and> entry_opts e < nxt (snd (snd (extend (One p) ns u)))
             \<and> descs (snd (snd (extend (One p) ns u))) (entry_opts e) \<noteq> None
             \<and> (case e of
                  Getter n v opts \<Rightarrow> True
                | Method n v opts f \<Rightarrow>
                    f = vt_validator (desc_at (snd (snd (extend (One p) ns u))) opts))))
   \<and> (wf_store s \<and> entry_opts e < nxt s \<longrightarrow>
        fst (use_entry e args s) \<notin> dom (descs s)
      \<and> fst (use_entry e args s) \<noteq> entry_opts e
      \<and> vt_type (desc_at (snd (use_entry e args s)) (fst (use_entry e args s)))
          = vt_type (desc_at s (entry_opts e))
      \<and> vt_required (desc_at (snd (use_entry e args s)) (fst (use_entry e args s)))
          = vt_required (desc_at s (entry_opts e))
      \<and> vt_default (desc_at (snd (use_entry e args s)) (fst (use_entry e args s)))
          = vt_default (desc_at s (entry_opts e))
      \<and> vt_validator (desc_at (snd (use_entry e args s)) (fst (use_entry e args s)))
          = (case e of
               Getter n v opts \<Rightarrow> vt_validator (desc_at s opts)
             | Method n v opts None \<Rightarrow> vt_validator (desc_at s opts)
             | Method n v opts (Some f) \<Rightarrow> Some (\<lambda>rest. f (args @ rest)))
      \<and> vt_name (desc_at (snd (use_entry e args s)) (fst (use_entry e args s)))
          = Some (entry_name e)
      \<and> vt_validable (desc_at (snd (use_entry e args s)) (fst (use_entry e args s)))
          = entry_validate e
      \<and> descs (snd (use_entry e args s)) (entry_opts e) = descs s (entry_opts e)
      \<and> descs (fold (chain (fst (use_entry e args s))) ops (snd (use_entry e args s)))
            (entry_opts e)
          = descs s (entry_opts e)
      \<and> wf_store (fold (chain (fst (use_entry e args s))) ops (snd (use_entry e args s)))
      \<and> entry_opts e
          < nxt (fold (chain (fst (use_entry e args s))) ops (snd (use_entry e args s)))
      \<and> (\<forall>args'.
            fst (use_entry e args'
                  (fold (chain (fst (use_entry e args s))) ops (snd (use_entry e args s))))
              \<noteq> fst (use_entry e args s)
            \<and> desc_at (snd (use_entry e args'
                  (fold (chain (fst (use_entry e args s))) ops (snd (use_entry e args s)))))
                 (fst (use_entry e args'
                  (fold (chain (fst (use_entry e args s))) ops (snd (use_entry e args s)))))
              = desc_at (snd (use_entry e args' s)) (fst (use_entry e args' s))))"
proof -
  have 1: "wf_store (snd (snd (extend (One p) ns u)))
      \<and> (\<exists>e. registry (fst (snd (extend (One p) ns u))) (x_name p) = Some e
             \<and> entry_name e = x_name p
             \<and> entry_opts e < nxt (snd (snd (extend (One p) ns u)))
             \<and> descs (snd (snd (extend (One p) ns u))) (entry_opts e) \<noteq> None
             \<and> (case e of
                  Getter n v opts \<Rightarrow> True
                | Method n v opts f \<Rightarrow>
                    f = vt_validator (desc_at (snd (snd (extend (One p) ns u))) opts)))"
    if h: "wf_store u" "fst (extend (One p) ns u) = None"
  proof -
    obtain err ns' u' where x: "extend1 p ns u = (err, ns', u')" by (cases "extend1 p ns u")
    with h(2) have "extend1 p ns u = (None, ns', u')" by simp
    from extend1_installs [OF h(1) this] have
      "wf_store u' \<and> (\<exists>e. registry ns' (x_name p) = Some e \<and> entry_name e = x_name p
           \<and> entry_opts e < nxt u' \<and> descs u' (entry_opts e) \<noteq> None
           \<and> (case e of Getter n v opts \<Rightarrow> True
               | Method n v opts f \<Rightarrow> f = vt_validator (desc_at u' opts)))"
      by blast
    then show ?thesis by (simp only: extend.simps x fst_conv snd_conv)
  qed
  have 2: "fst (use_entry e args s) \<notin> dom (descs s)
      \<and> fst (use_entry e args s) \<noteq> entry_opts e
      \<and> vt_type (desc_at (snd (use_entry e args s)) (fst (use_entry e args s)))
          = vt_type (desc_at s (entry_opts e))
      \<and> vt_required (desc_at (snd (use_entry e args s)) (fst (use_entry e args s)))
          = vt_required (desc_at s (entry_opts e))
      \<and> vt_default (desc_at (snd (use_entry e args s)) (fst (use_entry e args s)))
          = vt_default (desc_at s (entry_opts e))
      \<and> vt_validator (desc_at (snd (use_entry e args s)) (fst (use_entry e args s)))
          = (case e of
               Getter n v opts \<Rightarrow> vt_validator (desc_at s opts)
             | Method n v opts None \<Rightarrow> vt_validator (desc_at s opts)
             | Method n v opts (Some f) \<Rightarrow> Some (\<lambda>rest. f (args @ rest)))
      \<and> vt_name (desc_at (snd (use_entry e args s)) (fst (use_entry e args s)))
          = Some (entry_name e)
      \<and> vt_validable (desc_at (snd (use_entry e args s)) (fst (use_entry e args s)))
          = entry_validate e
      \<and> descs (snd (use_entry e args s)) (entry_opts e) = descs s (entry_opts e)
      \<and> descs (fold (chain (fst (use_entry e args s))) ops (snd (use_entry e args s)))
            (entry_opts e)
          = descs s (entry_opts e)
      \<and> wf_store (fold (chain (fst (use_entry e args s))) ops (snd (use_entry e args s)))
      \<and> entry_opts e
          < nxt (fold (chain (fst (use_entry e args s))) ops (snd (use_entry e args s)))
      \<and> (\<forall>args'.
            fst (use_entry e args'
                  (fold (chain (fst (use_entry e args s))) ops (snd (use_entry e args s))))
              \<noteq> fst (use_entry e args s)
            \<and> desc_at (snd (use_entry e args'
                  (fold (chain (fst (use_entry e args s))) ops (snd (use_entry e args s)))))
                 (fst (use_entry e args'
                  (fold (chain (fst (use_entry e args s))) ops (snd (use_entry e args s)))))
              = desc_at (snd (use_entry e args' s)) (fst (use_entry e args' s)))"
    if h: "wf_store s" "entry_opts e < nxt s"
  proof -
    let ?a = "fst (use_entry e args s)"
    let ?s1 = "snd (use_entry e args s)"
    let ?s2 = "fold (chain ?a) ops ?s1"
    have a: "?a = nxt s" by (simp add: use_entry_result)
    have ne: "entry_opts e \<noteq> ?a" using h(2) a by simp
    have fresh: "?a \<notin> dom (descs s)" using h(1) a by (auto simp: wf_store_def)
    have d: "desc_at ?s1 ?a = built e args (desc_at s (entry_opts e))"
      by (simp add: use_entry_result desc_at_def [of ?s1])
    have f1: "vt_type (desc_at ?s1 ?a) = vt_type (desc_at s (entry_opts e))"
      unfolding d by (cases e) (simp_all add: assign_copy_def)
    have f2: "vt_required (desc_at ?s1 ?a) = vt_required (desc_at s (entry_opts e))"
      unfolding d by (cases e) (simp_all add: assign_copy_def)
    have f3: "vt_default (desc_at ?s1 ?a) = vt_default (desc_at s (entry_opts e))"
      unfolding d by (cases e) (simp_all add: assign_copy_def)
    have f4: "vt_validator (desc_at ?s1 ?a)
          = (case e of
               Getter n v opts \<Rightarrow> vt_validator (desc_at s opts)
             | Method n v opts None \<Rightarrow> vt_validator (desc_at s opts)
             | Method n v opts (Some f) \<Rightarrow> Some (\<lambda>rest. f (args @ rest)))"
      unfolding d by (cases e) (simp_all add: assign_copy_def split: option.splits)
    have f5: "vt_name (desc_at ?s1 ?a) = Some (entry_name e)"
      unfolding d by (cases e) simp_all
    have f6: "vt_validable (desc_at ?s1 ?a) = entry_validate e"
      unfolding d by (cases e) simp_all
    have o1: "descs ?s1 (entry_opts e) = descs s (entry_opts e)"
      using ne by (simp add: use_entry_result a)
    note fr = fold_chain_frame [of _ ?a ops ?s1]
    have opts: "descs ?s2 (entry_opts e) = descs s (entry_opts e)"
      using fr [of "entry_opts e"] ne by (simp add: use_entry_result a)
    have n2: "nxt ?s2 = Suc (nxt s)" using fr [of 0] by (simp add: use_entry_result)
    have w2: "wf_store ?s2" using h(1) by (simp add: wf_fold_chain wf_use_entry)
    have lt: "entry_opts e < nxt ?s2" using h(2) n2 by simp
    have later: "\<forall>args'. fst (use_entry e args' ?s2) \<noteq> ?a
       \<and> desc_at (snd (use_entry e args' ?s2)) (fst (use_entry e args' ?s2))
          = desc_at (snd (use_entry e args' s)) (fst (use_entry e args' s))"
      using opts n2 a by (simp add: use_entry_result desc_at_def)
    show ?thesis
      by (intro conjI fresh ne [symmetric] f1 f2 f3 f4 f5 f6 o1 opts w2 lt later)
  qed
  from 1 2 show ?thesis by blast
qed

theorem use_entry_fresh_copy_witness:
  "wf_store s_int \<and> fst (extend (One maxInt) ns0 s_int) = None
   \<and> snd (snd (extend (One maxInt) ns0 s_int)) = s_max
   \<and> registry (fst (snd (extend (One maxInt) ns0 s_int))) (x_name maxInt) = Some maxInt_entry
   \<and> wf_store s_max \<and> entry_opts maxInt_entry < nxt s_max
   \<and> descs s_max (entry_opts maxInt_entry) = Some maxInt_opts
   \<and> maxInt_entry = Method ''maxInt'' False 3 (vt_validator maxInt_opts)
   \<and> fst (use_entry maxInt_entry [JNum 10] s_max) \<notin> dom (descs s_max)
   \<and> fst (use_entry maxInt_entry [JNum 10] s_max) \<noteq> entry_opts maxInt_entry
   \<and> vt_type (desc_at (snd (use_entry maxInt_entry [JNum 10] s_max)) (fst (use_entry maxInt_entry [JNum 10] s_max)))
       = Some (Native CNumber)
   \<and> vt_name (desc_at (snd (use_entry maxInt_entry [JNum 10] s_max)) (fst (use_entry maxInt_entry [JNum 10] s_max)))
       = Some ''maxInt''
   \<and> vt_validator (desc_at (snd (use_entry maxInt_entry [JNum 10] s_max)) (fst (use_entry maxInt_entry [JNum 10] s_max)))
       = Some (\<lambda>rest. conj_validator (\<lambda>args. (isInteger (first_arg args), [])) le_max
                         ([JNum 10] @ rest))
   \<and> descs (fold (chain (fst (use_entry maxInt_entry [JNum 10] s_max)))
              [OpIsRequired, OpDef (JNum 5)] (snd (use_entry maxInt_entry [JNum 10] s_max))) 3
       = Some maxInt_opts
   \<and> vt_required (desc_at (fold (chain (fst (use_entry maxInt_entry [JNum 10] s_max)))
              [OpIsRequired, OpDef (JNum 5)] (snd (use_entry maxInt_entry [JNum 10] s_max)))
          (fst (use_entry maxInt_entry [JNum 10] s_max)))
       = Some True
   \<and> fst (use_entry maxInt_entry [JNum 7]
            (fold (chain (fst (use_entry maxInt_entry [JNum 10] s_max)))
              [OpIsRequired, OpDef (JNum 5)] (snd (use_entry maxInt_entry [JNum 10] s_max))))
       \<noteq> fst (use_entry maxInt_entry [JNum 10] s_max)
   \<and> desc_at (snd (use_entry maxInt_entry [JNum 7]
            (fold (chain (fst (use_entry maxInt_entry [JNum 10] s_max)))
              [OpIsRequired, OpDef (JNum 5)] (snd (use_entry maxInt_entry [JNum 10] s_max)))))
          (fst (use_entry maxInt_entry [JNum 7]
            (fold (chain (fst (use_entry maxInt_entry [JNum 10] s_max)))
              [OpIsRequired, OpDef (JNum 5)] (snd (use_entry maxInt_entry [JNum 10] s_max)))))
       = desc_at (snd (use_entry maxInt_entry [JNum 7] s_max))
           (fst (use_entry maxInt_entry [JNum 7] s_max))
   \<and> vt_required (desc_at (snd (use_entry maxInt_entry [JNum 7] s_max))
           (fst (use_entry maxInt_entry [JNum 7] s_max))) = None"
proof -
  have o: "entry_opts maxInt_entry = 3" by (simp add: maxInt_entry_def)
  have l: "entry_opts maxInt_entry < nxt s_max" by (simp add: o s_max_simps)
  have so: "descs s_max (entry_opts maxInt_entry) = Some maxInt_opts"
    by (simp only: o s_max_simps(2))
  have da: "desc_at s_max (entry_opts maxInt_entry) = maxInt_opts"
    using so by (simp add: desc_at_def)
  have x: "fst (extend (One maxInt) ns0 s_int) = None"
    "snd (snd (extend (One maxInt) ns0 s_int)) = s_max"
    "registry (fst (snd (extend (One maxInt) ns0 s_int))) (x_name maxInt) = Some maxInt_entry"
    by (simp_all add: extend_maxInt ns_max_simps maxInt_name)
  note t0 = use_entry_fresh_copy [where u = s_int and p = maxInt and ns = ns0 and s = s_max
      and e = maxInt_entry and args = "[JNum 10]" and ops = "[OpIsRequired, OpDef (JNum 5)]"]
  note t = t0 [THEN conjunct2, rule_format, OF conjI [OF s_max_simps(4) l]]
  from t have 1: "fst (use_entry maxInt_entry [JNum 10] s_max) \<notin> dom (descs s_max)"
    and 2: "fst (use_entry maxInt_entry [JNum 10] s_max) \<noteq> entry_opts maxInt_entry"
    and 3: "descs (fold (chain (fst (use_entry maxInt_entry [JNum 10] s_max)))
              [OpIsRequired, OpDef (JNum 5)] (snd (use_entry maxInt_entry [JNum 10] s_max)))
              (entry_opts maxInt_entry)
       = descs s_max (entry_opts maxInt_entry)"
    and ty: "vt_type (desc_at (snd (use_entry maxInt_entry [JNum 10] s_max)) (fst (use_entry maxInt_entry [JNum 10] s_max)))
       = vt_type (desc_at s_max (entry_opts maxInt_entry))"
    and nm: "vt_name (desc_at (snd (use_entry maxInt_entry [JNum 10] s_max)) (fst (use_entry maxInt_entry [JNum 10] s_max)))
       = Some (entry_name maxInt_entry)"
    and va: "vt_validator (desc_at (snd (use_entry maxInt_entry [JNum 10] s_max)) (fst (use_entry maxInt_entry [JNum 10] s_max)))
       = (case maxInt_entry of
               Getter n v opts \<Rightarrow> vt_validator (desc_at s_max opts)
             | Method n v opts None \<Rightarrow> vt_validator (desc_at s_max opts)
             | Method n v opts (Some f) \<Rightarrow> Some (\<lambda>rest. f ([JNum 10] @ rest)))"
    by blast+
  from ty have ty': "vt_type (desc_at (snd (use_entry maxInt_entry [JNum 10] s_max)) (fst (use_entry maxInt_entry [JNum 10] s_max)))
       = Some (Native CNumber)"
    by (simp only: da) (simp add: maxInt_opts_def)
  from nm have nm': "vt_name (desc_at (snd (use_entry maxInt_entry [JNum 10] s_max)) (fst (use_entry maxInt_entry [JNum 10] s_max)))
       = Some ''maxInt''"
    by (simp add: maxInt_entry_def)
  from va have va': "vt_validator (desc_at (snd (use_entry maxInt_entry [JNum 10] s_max)) (fst (use_entry maxInt_entry [JNum 10] s_max)))
       = Some (\<lambda>rest. conj_validator (\<lambda>args. (isInteger (first_arg args), [])) le_max
                         ([JNum 10] @ rest))"
    by (simp add: maxInt_entry_def)
  from t have "\<forall>args'. fst (use_entry maxInt_entry args'
            (fold (chain (fst (use_entry maxInt_entry [JNum 10] s_max)))
              [OpIsRequired, OpDef (JNum 5)] (snd (use_entry maxInt_entry [JNum 10] s_max))))
       \<noteq> fst (use_entry maxInt_entry [JNum 10] s_max)
   \<and> desc_at (snd (use_entry maxInt_entry args'
            (fold (chain (fst (use_entry maxInt_entry [JNum 10] s_max)))
              [OpIsRequired, OpDef (JNum 5)] (snd (use_entry maxInt_entry [JNum 10] s_max)))))
          (fst (use_entry maxInt_entry args'
            (fold (chain (fst (use_entry maxInt_entry [JNum 10] s_max)))
              [OpIsRequired, OpDef (JNum 5)] (snd (use_entry maxInt_entry [JNum 10] s_max)))))
       = desc_at (snd (use_entry maxInt_entry args' s_max))
           (fst (use_entry maxInt_entry args' s_max))"
    by blast
  then have 4: "fst (use_entry maxInt_entry [JNum 7]
            (fold (chain (fst (use_entry maxInt_entry [JNum 10] s_max)))
              [OpIsRequired, OpDef (JNum 5)] (snd (use_entry maxInt_entry [JNum 10] s_max))))
       \<noteq> fst (use_entry maxInt_entry [JNum 10] s_max)
   \<and> desc_at (snd (use_entry maxInt_entry [JNum 7]
            (fold (chain (fst (use_entry maxInt_entry [JNum 10] s_max)))
              [OpIsRequired, OpDef (JNum 5)] (snd (use_entry maxInt_entry [JNum 10] s_max)))))
          (fst (use_entry maxInt_entry [JNum 7]
            (fold (chain (fst (use_entry maxInt_entry [JNum 10] s_max)))
              [OpIsRequired, OpDef (JNum 5)] (snd (use_entry maxInt_entry [JNum 10] s_max)))))
       = desc_at (snd (use_entry maxInt_entry [JNum 7] s_max))
           (fst (use_entry maxInt_entry [JNum 7] s_max))" by (rule spec)
  from 3 have c3: "descs (fold (chain (fst (use_entry maxInt_entry [JNum 10] s_max)))
              [OpIsRequired, OpDef (JNum 5)] (snd (use_entry maxInt_entry [JNum 10] s_max))) 3
       = Some maxInt_opts"
    by (simp only: o s_max_simps(2))
  have rq: "vt_required (desc_at (fold (chain (fst (use_entry maxInt_entry [JNum 10] s_max)))
              [OpIsRequired, OpDef (JNum 5)] (snd (use_entry maxInt_entry [JNum 10] s_max)))
          (fst (use_entry maxInt_entry [JNum 10] s_max)))
       = Some True"
    by (simp add: use_entry_result isRequired_def desc_at_def update_desc_simps def_unfold
          warn_simps split: option.splits)
  note t7 = use_entry_fresh_copy [where u = s_int and p = maxInt and ns = ns0 and s = s_max
      and e = maxInt_entry and args = "[JNum 7]" and ops = "[]",
      THEN conjunct2, rule_format, OF conjI [OF s_max_simps(4) l]]
  from t7 have "vt_required (desc_at (snd (use_entry maxInt_entry [JNum 7] s_max))
           (fst (use_entry maxInt_entry [JNum 7] s_max)))
       = vt_required (desc_at s_max (entry_opts maxInt_entry))"
    by blast
  then have r7: "vt_required (desc_at (snd (use_entry maxInt_entry [JNum 7] s_max))
           (fst (use_entry maxInt_entry [JNum 7] s_max))) = None"
    by (simp only: da) (simp add: maxInt_opts_def)
  have me: "maxInt_entry = Method ''maxInt'' False 3 (vt_validator maxInt_opts)"
    by (simp add: maxInt_entry_def maxInt_opts_def)
  from wf_s_int x s_max_simps(4) l so me 1 2 ty' nm' va' c3 rq 4 r7 show ?thesis by blast
qed

section \<open>The accessor \<^verbatim>\<open>sensibleDefaults\<close>\<close>

text \<open>
  C10, as amended. The getter \<^verbatim>\<open>sensibleDefaults\<close> returns the current record. Assigning \<^verbatim>\<open>false\<close>
  installs a new, empty record, after which no convenience getter applies a default;
  assigning \<^verbatim>\<open>true\<close> installs a new record with the fields of the object \<^verbatim>\<open>defs\<close> that
  was passed to \<^verbatim>\<open>createTypes\<close>, as that object holds them when the assignment runs;
  assigning an object installs a new record with that object's fields. In a well-formed
  store the new record is at an address no object had. After \<^verbatim>\<open>createTypes\<close> and any
  actions that do not write to the caller's configuration object, assigning \<^verbatim>\<open>true\<close>
  gives back the fields of the configuration as it was passed.
\<close>

theorem sensibleDefaults_accessors:
  "get_sensibleDefaults ns = defaults ns
   \<and> set_sensibleDefaults (SBool False) ns s
       = (ns\<lparr>defaults := nxt s\<rparr>,
          s\<lparr>objs := (objs s)(nxt s \<mapsto> Map.empty), nxt := Suc (nxt s)\<rparr>)
   \<and> (\<forall>k. vt_default (got k (fst (set_sensibleDefaults (SBool False) ns s))
                            (snd (set_sensibleDefaults (SBool False) ns s))) = None)
   \<and> set_sensibleDefaults (SBool True) ns s
       = (ns\<lparr>defaults := nxt s\<rparr>,
          s\<lparr>objs := (objs s)(nxt s \<mapsto> obj_at s (defs ns)), nxt := Suc (nxt s)\<rparr>)
   \<and> set_sensibleDefaults (SObj a) ns s
       = (ns\<lparr>defaults := nxt s\<rparr>,
          s\<lparr>objs := (objs s)(nxt s \<mapsto> obj_at s a), nxt := Suc (nxt s)\<rparr>)
   \<and> (wf_store s \<longrightarrow> nxt s \<notin> dom (objs s))
   \<and> (wf_store u \<and> set_option arg \<subseteq> dom (objs u)
        \<and> list_all (foreign (defs (fst (createTypes td arg u)))) acts \<longrightarrow>
        obj_at (snd (fold act (acts @ [Assign (SBool True)]) (createTypes td arg u)))
          (get_sensibleDefaults (fst (fold act (acts @ [Assign (SBool True)]) (createTypes td arg u))))
        = (case arg of None \<Rightarrow> td | Some a \<Rightarrow> obj_at u a))"
proof -
  have 1: "\<forall>k. vt_default (got k (fst (set_sensibleDefaults (SBool False) ns s))
                            (snd (set_sensibleDefaults (SBool False) ns s))) = None"
    by (simp add: got_eq set_unfold obj_at_def got_no_default get_prop_def)
  have 2: "wf_store s \<longrightarrow> nxt s \<notin> dom (objs s)" by (auto simp: wf_store_def)
  have 3: "obj_at (snd (fold act (acts @ [Assign (SBool True)]) (createTypes td arg u)))
          (get_sensibleDefaults (fst (fold act (acts @ [Assign (SBool True)]) (createTypes td arg u))))
        = (case arg of None \<Rightarrow> td | Some a \<Rightarrow> obj_at u a)"
    if h: "wf_store u" "set_option arg \<subseteq> dom (objs u)"
       "list_all (foreign (defs (fst (createTypes td arg u)))) acts"
  proof -
    obtain N s1 where c: "createTypes td arg u = (N, s1)" by (cases "createTypes td arg u")
    note r = createTypes_result [OF h(1,2), of td, unfolded c fst_conv snd_conv]
    obtain N' s' where f: "fold act acts (N, s1) = (N', s')" by (cases "fold act acts (N, s1)")
    from h(3) c have fr: "list_all (foreign (defs N)) acts" by simp
    from act_frame [OF r(1) r(3) r(5) fr] f
    have k: "objs s' (defs N) = objs s1 (defs N)" "defs N' = defs N" by simp_all
    have "obj_at s' (defs N') = obj_at s1 (defs N)" using k by (simp add: obj_at_def)
    with r(7) show ?thesis
      by (simp add: c f set_unfold get_sensibleDefaults_def obj_at_def)
  qed
  from 1 2 3 show ?thesis
    by (simp add: get_sensibleDefaults_def alloc_obj_def)
qed

text \<open>
  C10 as stated fails at \<^verbatim>\<open>createTypes(d)\<close> with \<^verbatim>\<open>d.string = ''\<close>, followed by the
  caller's \<^verbatim>\<open>d.string = 'y'\<close> and then \<^verbatim>\<open>sensibleDefaults = true\<close>: the new record holds
  \<^verbatim>\<open>'y'\<close> and the \<^verbatim>\<open>string\<close> getter applies it, not the value of the configuration as it
  was passed.
\<close>

theorem assign_true_reads_mutated_config:
  "createTypes sensible (Some 0) cfg_store = (ns0, s0)
   \<and> get_prop (obj_at cfg_store 0) ''string'' = JStr []
   \<and> vt_default (got KString ns0 s0) = Some (JStr [])
   \<and> get_prop (obj_at (snd (fold act [WriteAt 0 ''string'' (JStr ''y''), Assign (SBool True)]
                                  (ns0, s0)))
                      (get_sensibleDefaults
                         (fst (fold act [WriteAt 0 ''string'' (JStr ''y''), Assign (SBool True)]
                                  (ns0, s0)))))
         ''string'' = JStr ''y''
   \<and> vt_default (got KString
         (fst (fold act [WriteAt 0 ''string'' (JStr ''y''), Assign (SBool True)] (ns0, s0)))
         (snd (fold act [WriteAt 0 ''string'' (JStr ''y''), Assign (SBool True)] (ns0, s0))))
       = Some (JStr ''y'')"
proof -
  have 1: "get_prop (obj_at cfg_store 0) ''string'' = JStr []"
    by (simp add: obj_at_def cfg_store_def sensible_string)
  have 2: "vt_default (got KString ns0 s0) = Some (JStr [])"
    by (simp add: got_eq obj_at_def ns0_simps s0_def getter_string sensible_string)
  have 3: "get_prop (obj_at (snd (fold act [WriteAt 0 ''string'' (JStr ''y''), Assign (SBool True)]
                                  (ns0, s0)))
                      (get_sensibleDefaults
                         (fst (fold act [WriteAt 0 ''string'' (JStr ''y''), Assign (SBool True)]
                                  (ns0, s0)))))
         ''string'' = JStr ''y''"
    unfolding y_run by (simp add: get_sensibleDefaults_def obj_at_def get_prop_def)
  have 4: "vt_default (got KString
         (fst (fold act [WriteAt 0 ''string'' (JStr ''y''), Assign (SBool True)] (ns0, s0)))
         (snd (fold act [WriteAt 0 ''string'' (JStr ''y''), Assign (SBool True)] (ns0, s0))))
       = Some (JStr ''y'')"
    unfolding y_run by (simp add: got_eq obj_at_def getter_string get_prop_def)
  from cfg_store_simps(3) 1 2 3 4 show ?thesis by blast
qed

theorem sensibleDefaults_accessors_witness:
  "wf_store s0 \<and> nxt s0 \<notin> dom (objs s0)
   \<and> get_sensibleDefaults ns0 = 1
   \<and> get_sensibleDefaults (fst (set_sensibleDefaults (SBool False) ns0 s0)) = 2
   \<and> obj_at (snd (set_sensibleDefaults (SBool False) ns0 s0)) 2 = Map.empty
   \<and> vt_default (got KString (fst (set_sensibleDefaults (SBool False) ns0 s0))
                               (snd (set_sensibleDefaults (SBool False) ns0 s0))) = None
   \<and> obj_at (snd (set_sensibleDefaults (SBool True) ns0 s0)) 2 = sensible
   \<and> obj_at (snd (set_sensibleDefaults (SObj 1) ns0 s0)) 2 = sensible
   \<and> wf_store cfg_store \<and> set_option (Some 0) \<subseteq> dom (objs cfg_store)
   \<and> list_all (foreign (defs (fst (createTypes sensible (Some 0) cfg_store))))
         [WriteOwn ''string'' (JStr ''x''), Assign (SBool False)]
   \<and> obj_at (snd (fold act ([WriteOwn ''string'' (JStr ''x''), Assign (SBool False)]
                               @ [Assign (SBool True)])
                    (createTypes sensible (Some 0) cfg_store)))
         (get_sensibleDefaults
            (fst (fold act ([WriteOwn ''string'' (JStr ''x''), Assign (SBool False)]
                               @ [Assign (SBool True)])
                    (createTypes sensible (Some 0) cfg_store))))
       = sensible"
proof -
  note t = sensibleDefaults_accessors [of ns0 s0 1 cfg_store "Some 0" sensible
             "[WriteOwn ''string'' (JStr ''x''), Assign (SBool False)]"]
  have n: "nxt s0 = 2" by (simp add: s0_def)
  have o: "obj_at s0 (defs ns0) = sensible" "obj_at s0 1 = sensible" "obj_at cfg_store 0 = sensible"
    by (simp_all add: obj_at_def s0_def ns0_simps cfg_store_def)
  have fr: "list_all (foreign (defs (fst (createTypes sensible (Some 0) cfg_store))))
         [WriteOwn ''string'' (JStr ''x''), Assign (SBool False)]"
    by simp
  from t have g: "get_sensibleDefaults ns0 = defaults ns0" by blast
  from t have sf: "set_sensibleDefaults (SBool False) ns0 s0
       = (ns0\<lparr>defaults := nxt s0\<rparr>,
          s0\<lparr>objs := (objs s0)(nxt s0 \<mapsto> Map.empty), nxt := Suc (nxt s0)\<rparr>)" by blast
  from t have st: "set_sensibleDefaults (SBool True) ns0 s0
       = (ns0\<lparr>defaults := nxt s0\<rparr>,
          s0\<lparr>objs := (objs s0)(nxt s0 \<mapsto> obj_at s0 (defs ns0)), nxt := Suc (nxt s0)\<rparr>)" by blast
  from t have so: "set_sensibleDefaults (SObj 1) ns0 s0
       = (ns0\<lparr>defaults := nxt s0\<rparr>,
          s0\<lparr>objs := (objs s0)(nxt s0 \<mapsto> obj_at s0 1), nxt := Suc (nxt s0)\<rparr>)" by blast
  from t have nd: "vt_default (got KString (fst (set_sensibleDefaults (SBool False) ns0 s0))
                               (snd (set_sensibleDefaults (SBool False) ns0 s0))) = None" by blast
  from t s0_simps(1) have fresh: "nxt s0 \<notin> dom (objs s0)" by blast
  from t cfg_store_simps(1,2) fr
  have bk: "obj_at (snd (fold act ([WriteOwn ''string'' (JStr ''x''), Assign (SBool False)]
                               @ [Assign (SBool True)])
                    (createTypes sensible (Some 0) cfg_store)))
         (get_sensibleDefaults
            (fst (fold act ([WriteOwn ''string'' (JStr ''x''), Assign (SBool False)]
                               @ [Assign (SBool True)])
                    (createTypes sensible (Some 0) cfg_store))))
       = (case Some (0::nat) of None \<Rightarrow> sensible | Some a \<Rightarrow> obj_at cfg_store a)" by blast
  have 1: "get_sensibleDefaults ns0 = 1" using g by (simp add: ns0_simps)
  have 2: "get_sensibleDefaults (fst (set_sensibleDefaults (SBool False) ns0 s0)) = 2"
    by (simp add: sf n get_sensibleDefaults_def del: set_sensibleDefaults.simps)
  have 3: "obj_at (snd (set_sensibleDefaults (SBool False) ns0 s0)) 2 = Map.empty"
    by (simp only: sf snd_conv n obj_at_alloc)
  have 4: "obj_at (snd (set_sensibleDefaults (SBool True) ns0 s0)) 2 = sensible"
    by (simp only: st snd_conv n obj_at_alloc o)
  have 5: "obj_at (snd (set_sensibleDefaults (SObj 1) ns0 s0)) 2 = sensible"
    by (simp only: so snd_conv n obj_at_alloc o)
  from bk have 6: "obj_at (snd (fold act ([WriteOwn ''string'' (JStr ''x''), Assign (SBool False)]
                               @ [Assign (SBool True)])
                    (createTypes sensible (Some 0) cfg_store)))
         (get_sensibleDefaults
            (fst (fold act ([WriteOwn ''string'' (JStr ''x''), Assign (SBool False)]
                               @ [Assign (SBool True)])
                    (createTypes sensible (Some 0) cfg_store))))
       = sensible" by (simp only: option.case o)
  from s0_simps(1) fresh 1 2 3 nd 4 5 cfg_store_simps(1,2) fr 6 show ?thesis by blast
qed

end
